theory Spec2Isabelle
  imports Complex_Main "HOL-Library.Multiset"
begin

chapter \<open>The notebooks' code\<close>

section \<open>Errors raised by the notebooks' code\<close>

text \<open>
  The notebooks catch nothing, so every exception is a value of the model.
  \<open>NegativeDimension\<close> is the RuntimeError of \<open>torch.zeros\<close> for a negative size,
  \<open>ShapeMismatch\<close> the RuntimeError of a tensor assignment or comparison whose shapes do
  not broadcast, \<open>EmptyReduction\<close> the error of a maximum over no elements,
  \<open>Framework msg\<close> any exception raised inside an opaque framework call
  (the network, the loss, the optimizer). The other errors are those of Python itself.
\<close>

datatype error =
    IndexError
  | NegativeDimension
  | ShapeMismatch
  | EmptyReduction
  | ZeroDivisionError
  | AttributeError
  | Framework string

section \<open>Character tokenizer\<close>

text \<open>
  \<^verbatim>\<open>
  def char_tokenizer(words):
      return list(words)
  \<close>
  A Python string is a sequence of code points; \<open>list\<close> yields one string of length one
  per code point. The model is polymorphic in the type of code points.
\<close>

definition char_tokenizer :: "'c list \<Rightarrow> 'c list list" where
  "char_tokenizer words = map (\<lambda>c. [c]) words"

section \<open>Bag of words\<close>

text \<open>
  \<^verbatim>\<open>
  def to_bow(wordvec,bow_vocab_size=vocab_size):
      res = torch.zeros(bow_vocab_size,dtype=torch.float32)
      for i in wordvec:
          if i<bow_vocab_size:
              res[i] += 1
      return res
  \<close>
  The entries of \<open>res\<close> are float32 values that are always whole numbers, so an entry is
  modelled by the natural number it holds. float32 has a 24-bit significand: adding 1.0
  is exact below \<open>2^24\<close>, and \<open>2^24 + 1\<close> rounds (ties to even) back to \<open>2^24\<close>.
\<close>

definition f32_limit :: nat where
  "f32_limit = 2 ^ 24"

definition f32_incr :: "nat \<Rightarrow> nat" where
  "f32_incr c = (if c < f32_limit then c + 1 else c)"

definition torch_zeros :: "int \<Rightarrow> error + nat list" where
  "torch_zeros n = (if n < 0 then Inl NegativeDimension else Inr (replicate (nat n) 0))"

text \<open>\<open>res[i] += 1\<close>: a negative index counts from the end, an index out of range raises.\<close>

definition tensor_incr :: "nat list \<Rightarrow> int \<Rightarrow> error + nat list" where
  "tensor_incr res i =
     (let n = int (length res); j = (if i < 0 then i + n else i)
      in if 0 \<le> j \<and> j < n then Inr (res[nat j := f32_incr (res ! nat j)])
         else Inl IndexError)"

fun to_bow_loop :: "int \<Rightarrow> int list \<Rightarrow> nat list \<Rightarrow> error + nat list" where
  "to_bow_loop bow_vocab_size [] res = Inr res"
| "to_bow_loop bow_vocab_size (i # wordvec) res =
     (if i < bow_vocab_size
      then (case tensor_incr res i of
              Inl e \<Rightarrow> Inl e
            | Inr res' \<Rightarrow> to_bow_loop bow_vocab_size wordvec res')
      else to_bow_loop bow_vocab_size wordvec res)"

definition to_bow :: "int list \<Rightarrow> int \<Rightarrow> error + nat list" where
  "to_bow wordvec bow_vocab_size =
     (case torch_zeros bow_vocab_size of
        Inl e \<Rightarrow> Inl e
      | Inr res \<Rightarrow> to_bow_loop bow_vocab_size wordvec res)"

section \<open>Minibatches for the generative network\<close>

text \<open>
  \<^verbatim>\<open>
  def encode_text(s):
      return torch.LongTensor([TEXT.vocab.stoi[t] for t in s])
  \<close>
  \<open>TEXT.vocab.stoi\<close> is a dictionary with a default (the index of the unknown token), so
  it is a total function from tokens to indices; it is a parameter of the model.
\<close>

definition encode_text :: "('t \<Rightarrow> nat) \<Rightarrow> 't list \<Rightarrow> nat list" where
  "encode_text stoi s = map stoi s"

text \<open>The slice \<open>s[a:b]\<close> for \<open>0 \<le> a \<le> b\<close>; a slice never raises, it is cut at the end.\<close>

definition slice :: "'t list \<Rightarrow> nat \<Rightarrow> nat \<Rightarrow> 't list" where
  "slice s a b = take (b - a) (drop a s)"

text \<open>
  \<open>torch.zeros(rows, cols, dtype=torch.long)\<close>: a matrix is the list of its rows. A
  negative dimension raises; a dimension that is zero does not.
\<close>

definition torch_zeros2 :: "int \<Rightarrow> int \<Rightarrow> error + nat list list" where
  "torch_zeros2 rows cols =
     (if rows < 0 \<or> cols < 0 then Inl NegativeDimension
      else Inr (replicate (nat rows) (replicate (nat cols) 0)))"

text \<open>
  \<open>m[i] = t\<close> for a matrix \<open>m\<close> with \<open>cols\<close> columns and \<open>0 \<le> i\<close>: the row index must
  exist, and \<open>t\<close> must have the length of a row or be a single value that is broadcast.
\<close>

definition assign_row :: "nat \<Rightarrow> nat list list \<Rightarrow> nat \<Rightarrow> nat list \<Rightarrow> error + nat list list" where
  "assign_row cols m i t =
     (if length m \<le> i then Inl IndexError
      else if length t = cols then Inr (m[i := t])
      else if length t = 1 then Inr (m[i := replicate cols (hd t)])
      else Inl ShapeMismatch)"

text \<open>
  \<^verbatim>\<open>
  def get_batch(s,nchars=nchars):
      ins = torch.zeros(len(s)-nchars,nchars,dtype=torch.long,device=device)
      outs = torch.zeros(len(s)-nchars,nchars,dtype=torch.long,device=device)
      for i in range(len(s)-nchars):
          ins[i] = encode_text(s[i:i+nchars])
          outs[i] = encode_text(s[i+1:i+nchars+1])
      return ins,outs
  \<close>
  \<open>nchars\<close> is a number of characters, a natural number. The loop runs over the list
  of the values of \<open>range(len(s)-nchars)\<close>.
\<close>

fun get_batch_loop ::
  "('t \<Rightarrow> nat) \<Rightarrow> 't list \<Rightarrow> nat \<Rightarrow> nat list \<Rightarrow> nat list list \<Rightarrow> nat list list
   \<Rightarrow> error + (nat list list \<times> nat list list)" where
  "get_batch_loop stoi s nchars [] ins outs = Inr (ins, outs)"
| "get_batch_loop stoi s nchars (i # rng) ins outs =
     (case assign_row nchars ins i (encode_text stoi (slice s i (i + nchars))) of
        Inl e \<Rightarrow> Inl e
      | Inr ins' \<Rightarrow>
          (case assign_row nchars outs i (encode_text stoi (slice s (i + 1) (i + nchars + 1))) of
             Inl e \<Rightarrow> Inl e
           | Inr outs' \<Rightarrow> get_batch_loop stoi s nchars rng ins' outs'))"

definition get_batch ::
  "('t \<Rightarrow> nat) \<Rightarrow> 't list \<Rightarrow> nat \<Rightarrow> error + (nat list list \<times> nat list list)" where
  "get_batch stoi s nchars =
     (case torch_zeros2 (int (length s) - int nchars) (int nchars) of
        Inl e \<Rightarrow> Inl e
      | Inr ins \<Rightarrow>
          (case torch_zeros2 (int (length s) - int nchars) (int nchars) of
             Inl e \<Rightarrow> Inl e
           | Inr outs \<Rightarrow>
               get_batch_loop stoi s nchars [0 ..< nat (int (length s) - int nchars)] ins outs))"

section \<open>Calls into the framework\<close>

text \<open>
  The network, the loss and the optimizer belong to the deep-learning framework. They are
  parameters of the model: functions on an opaque state \<open>'w\<close> of the framework (the
  parameters of the network, their gradients, the state of the optimizer, the mode flags,
  the random generator) that either return or raise with a message. \<open>'x\<close> is the type of
  the input of the network, \<open>'o\<close> what a call of the network returns, \<open>'p\<close> the
  predictions the loss is computed from, \<open>'y\<close> the targets and \<open>'l\<close> a loss tensor.
  \<open>train_mode\<close> is \<open>net.train()\<close>, \<open>eval_mode\<close> is \<open>model.eval()\<close>, \<open>adam\<close> creates the
  optimizer \<open>torch.optim.Adam(net.parameters(), lr)\<close>, \<open>forward\<close> is a call of the network,
  \<open>backward\<close> is \<open>loss.backward()\<close>, \<open>opt_step\<close> is \<open>optimizer.step()\<close> and \<open>item\<close> is
  \<open>loss.item()\<close>. Moving a tensor to the device (\<open>.to(device)\<close>) and reshaping the
  arguments of the loss belong to the call that receives them.
\<close>

record ('w, 'x, 'o, 'p, 'y, 'l) framework =
  train_mode :: "'w \<Rightarrow> string + 'w"
  eval_mode :: "'w \<Rightarrow> string + 'w"
  adam :: "'w \<Rightarrow> real \<Rightarrow> string + 'w"
  zero_grad :: "'w \<Rightarrow> string + 'w"
  forward :: "'w \<Rightarrow> 'x \<Rightarrow> string + ('o \<times> 'w)"
  loss_fn :: "'p \<Rightarrow> 'y \<Rightarrow> string + 'l"
  backward :: "'w \<Rightarrow> 'l \<Rightarrow> string + 'w"
  opt_step :: "'w \<Rightarrow> string + 'w"
  item :: "'l \<Rightarrow> real"

text \<open>
  The code runs statement after statement and catches nothing: the first exception ends
  the run and is its result.
\<close>

definition and_then :: "error + 'a \<Rightarrow> ('a \<Rightarrow> error + 'b) \<Rightarrow> error + 'b" where
  "and_then r f = (case r of Inl e \<Rightarrow> Inl e | Inr v \<Rightarrow> f v)"

definition lift :: "string + 'a \<Rightarrow> error + 'a" where
  "lift r = (case r of Inl msg \<Rightarrow> Inl (Framework msg) | Inr v \<Rightarrow> Inr v)"

text \<open>
  The state of a run: the state of the framework, the calls made into it so far that
  concern training, and the lines printed so far. A printed floating-point value is a
  real number, or not a number where the code can produce that.
\<close>

datatype call = ZeroGrad | Forward | Loss | Backward | OptStep

datatype float = Num real | NaN

datatype line =
    AccLine int real
  | LossLine real
  | TextLine string
  | FinalAccuracy float

record 'w machine =
  world :: 'w
  calls :: "call list"
  printed :: "line list"

definition call_zero_grad ::
  "('w, 'x, 'o, 'p, 'y, 'l) framework \<Rightarrow> ('w, 'z) machine_scheme
   \<Rightarrow> error + ('w, 'z) machine_scheme" where
  "call_zero_grad fw m =
     and_then (lift (zero_grad fw (world m)))
       (\<lambda>w. Inr (m\<lparr>world := w, calls := calls m @ [ZeroGrad]\<rparr>))"

definition call_forward ::
  "('w, 'x, 'o, 'p, 'y, 'l) framework \<Rightarrow> ('w, 'z) machine_scheme \<Rightarrow> 'x
   \<Rightarrow> error + ('o \<times> ('w, 'z) machine_scheme)" where
  "call_forward fw m x =
     and_then (lift (forward fw (world m) x))
       (\<lambda>(out, w). Inr (out, m\<lparr>world := w, calls := calls m @ [Forward]\<rparr>))"

definition call_loss ::
  "('w, 'x, 'o, 'p, 'y, 'l) framework \<Rightarrow> ('w, 'z) machine_scheme \<Rightarrow> 'p \<Rightarrow> 'y
   \<Rightarrow> error + ('l \<times> ('w, 'z) machine_scheme)" where
  "call_loss fw m out y =
     and_then (lift (loss_fn fw out y))
       (\<lambda>loss. Inr (loss, m\<lparr>calls := calls m @ [Loss]\<rparr>))"

definition call_backward ::
  "('w, 'x, 'o, 'p, 'y, 'l) framework \<Rightarrow> ('w, 'z) machine_scheme \<Rightarrow> 'l
   \<Rightarrow> error + ('w, 'z) machine_scheme" where
  "call_backward fw m loss =
     and_then (lift (backward fw (world m) loss))
       (\<lambda>w. Inr (m\<lparr>world := w, calls := calls m @ [Backward]\<rparr>))"

definition call_opt_step ::
  "('w, 'x, 'o, 'p, 'y, 'l) framework \<Rightarrow> ('w, 'z) machine_scheme
   \<Rightarrow> error + ('w, 'z) machine_scheme" where
  "call_opt_step fw m =
     and_then (lift (opt_step fw (world m)))
       (\<lambda>w. Inr (m\<lparr>world := w, calls := calls m @ [OptStep]\<rparr>))"

section \<open>Tensor operations the code applies to the outputs\<close>

text \<open>
  Floating-point values (logits, losses, accuracies) are real numbers; where the loops
  compute with them, the result is rounded (\<open>rounding\<close>, below). A
  vector is a list, a matrix the list of its rows. \<open>py_index0 t\<close> is \<open>t[0]\<close>, \<open>py_last t\<close>
  is \<open>t[-1]\<close> and \<open>py_index t k\<close> is \<open>t[k]\<close> for \<open>k \<ge> 0\<close>.
\<close>

definition py_index0 :: "'a list \<Rightarrow> error + 'a" where
  "py_index0 t = (case t of [] \<Rightarrow> Inl IndexError | x # _ \<Rightarrow> Inr x)"

definition py_last :: "'a list \<Rightarrow> error + 'a" where
  "py_last t = (if t = [] then Inl IndexError else Inr (last t))"

definition py_index :: "'a list \<Rightarrow> nat \<Rightarrow> error + 'a" where
  "py_index t k = (if k < length t then Inr (t ! k) else Inl IndexError)"

text \<open>
  \<open>torch.argmax\<close> of a vector: the position of the first greatest entry; the reduction
  of an empty vector raises.
\<close>

fun argmax_list :: "real list \<Rightarrow> nat" where
  "argmax_list [] = 0"
| "argmax_list [x] = 0"
| "argmax_list (x # y # ys) =
     (let j = argmax_list (y # ys) in if x < (y # ys) ! j then Suc j else 0)"

definition argmax :: "real list \<Rightarrow> error + nat" where
  "argmax row = (if row = [] then Inl EmptyReduction else Inr (argmax_list row))"

section \<open>Text generation\<close>

text \<open>
  \<^verbatim>\<open>
  def generate(net,size=100,start='today '):
          chars = list(start)
          out, s = net(encode_text(chars).view(1,-1).to(device))
          for i in range(size):
              nc = torch.argmax(out[0][-1])
              chars.append(TEXT.vocab.itos[nc])
              out, s = net(nc.view(1,-1),s)
          return ''.join(chars)
  \<close>
  The network takes a batch of index sequences and an optional recurrent state, and
  returns a batch of matrices of logits (one row per position) with the new recurrent
  state. \<open>view(1,-1)\<close> makes a batch of one sequence. \<open>itos\<close> is the list of the
  vocabulary's tokens, which are strings; \<open>list(start)\<close> is \<open>char_tokenizer start\<close>. The
  loop variable \<open>i\<close> is not used, so the loop is a recursion on the number of rounds left.
\<close>

fun generate_loop ::
  "('w, nat list list \<times> 's option, real list list list \<times> 's, 'p, 'y, 'l) framework
   \<Rightarrow> 'c list list \<Rightarrow> nat \<Rightarrow> 'c list list \<Rightarrow> real list list list \<Rightarrow> 's
   \<Rightarrow> ('w, 'z) machine_scheme \<Rightarrow> error + ('c list list \<times> ('w, 'z) machine_scheme)" where
  "generate_loop fw itos 0 chars out s m = Inr (chars, m)"
| "generate_loop fw itos (Suc n) chars out s m =
     and_then (py_index0 out) (\<lambda>out0.
     and_then (py_last out0) (\<lambda>row.
     and_then (argmax row) (\<lambda>nc.
     and_then (py_index itos nc) (\<lambda>tok.
     and_then (call_forward fw m ([[nc]], Some s)) (\<lambda>((out', s'), m').
       generate_loop fw itos n (chars @ [tok]) out' s' m')))))"

definition generate ::
  "('w, nat list list \<times> 's option, real list list list \<times> 's, 'p, 'y, 'l) framework
   \<Rightarrow> ('c list \<Rightarrow> nat) \<Rightarrow> 'c list list \<Rightarrow> nat \<Rightarrow> 'c list
   \<Rightarrow> ('w, 'z) machine_scheme \<Rightarrow> error + ('c list \<times> ('w, 'z) machine_scheme)" where
  "generate fw stoi itos size' start m =
     (let chars = char_tokenizer start in
      and_then (call_forward fw m ([encode_text stoi chars], None)) (\<lambda>((out, s), m1).
      and_then (generate_loop fw itos size' chars out s m1) (\<lambda>(chars', m2).
        Inr (concat chars', m2))))"

section \<open>Python numbers and tensors in the loops\<close>

text \<open>
  The accumulators of the loops start as the Python integer \<open>0\<close> and become tensors with
  the first \<open>+=\<close> of a tensor. \<open>x.item()\<close> exists for a tensor only; \<open>a / b\<close> and \<open>a % b\<close>
  raise for \<open>b = 0\<close>. Python's \<open>%\<close> on integers is \<open>mod\<close> (the sign of the divisor).

  The value of a floating-point operation is its exact value rounded: to a float32 in a
  tensor of losses or of accuracies, to a double in a Python float. The two roundings
  are parameters of the loops, and nothing is assumed of them. Counts are integers and
  are added exactly (\<open>py_add\<close>); a loss is added to the accumulated loss in float32
  (\<open>py_add32\<close>); \<open>a / b\<close> is a Python float (\<open>py_div\<close>).
\<close>

datatype 'a py = PyInt int | Tensor 'a

record rounding =
  to_float32 :: "real \<Rightarrow> real"
  to_double :: "real \<Rightarrow> real"

definition py_add :: "int py \<Rightarrow> int \<Rightarrow> int py" where
  "py_add x v = (case x of PyInt n \<Rightarrow> Tensor (n + v) | Tensor t \<Rightarrow> Tensor (t + v))"

definition py_add32 :: "rounding \<Rightarrow> real py \<Rightarrow> real \<Rightarrow> real py" where
  "py_add32 ar x v =
     (case x of PyInt n \<Rightarrow> Tensor (to_float32 ar (of_int n + v))
              | Tensor t \<Rightarrow> Tensor (to_float32 ar (t + v)))"

definition py_item :: "'a py \<Rightarrow> error + 'a" where
  "py_item x = (case x of PyInt n \<Rightarrow> Inl AttributeError | Tensor t \<Rightarrow> Inr t)"

definition py_div :: "rounding \<Rightarrow> real \<Rightarrow> int \<Rightarrow> error + real" where
  "py_div ar a b =
     (if b = 0 then Inl ZeroDivisionError else Inr (to_double ar (a / of_int b)))"

definition py_mod :: "int \<Rightarrow> int \<Rightarrow> error + int" where
  "py_mod a b = (if b = 0 then Inl ZeroDivisionError else Inr (a mod b))"

text \<open>
  \<open>torch.max(out, 1)\<close> and \<open>out.argmax(dim=1)\<close>: the position of the greatest score in each
  row of the matrix \<open>out\<close>; rows without entries raise.
\<close>

definition argmax_rows :: "real list list \<Rightarrow> error + nat list" where
  "argmax_rows out =
     (if [] \<in> set out then Inl EmptyReduction else Inr (map argmax_list out))"

text \<open>
  \<open>predicted == labels\<close> on vectors: entry by entry when the lengths agree, a vector of one
  entry is broadcast, any other pair of lengths raises.
\<close>

definition tensor_eq :: "nat list \<Rightarrow> int list \<Rightarrow> error + bool list" where
  "tensor_eq predicted labels =
     (if length predicted = length labels
        then Inr (map (\<lambda>(p, l). int p = l) (zip predicted labels))
      else if length predicted = 1 then Inr (map (\<lambda>l. int (hd predicted) = l) labels)
      else if length labels = 1 then Inr (map (\<lambda>p. int p = hd labels) predicted)
      else Inl ShapeMismatch)"

definition count_true :: "bool list \<Rightarrow> int" where
  "count_true bs = int (length (filter (\<lambda>b. b) bs))"

section \<open>The training loop of the bag-of-words classifier\<close>

text \<open>
  \<^verbatim>\<open>
  def train_epoch(net,dataloader,lr=0.01,optimizer=None,loss_fn = torch.nn.NLLLoss(),
                  epoch_size=None, report_freq=200):
      optimizer = optimizer or torch.optim.Adam(net.parameters(),lr=lr)
      net.train()
      total_loss,acc,count,i = 0,0,0,0
      for labels,features in dataloader:
          optimizer.zero_grad()
          out = net(features)
          loss = loss_fn(out,labels) #cross_entropy(out,labels)
          loss.backward()
          optimizer.step()
          total_loss+=loss
          _,predicted = torch.max(out,1)
          acc+=(predicted==labels).sum()
          count+=len(labels)
          i+=1
          if i%report_freq==0:
              print(f"{count}: acc={acc.item()/count}")
          if epoch_size and count>epoch_size:
              break
      return total_loss.item()/count, acc.item()/count
  \<close>
  The local variables \<open>count\<close> and \<open>i\<close> are the fields \<open>count_samples\<close> and \<open>iter\<close>. The
  data loader is the list of the batches it yields, a batch a pair of the labels and the
  features. \<open>optimizer\<close> tells whether an optimizer was passed; it lives in the state of
  the framework. \<open>ar\<close> holds the two roundings of the floating-point arithmetic.
\<close>

record 'w train_state = "'w machine" +
  total_loss :: "real py"
  acc :: "int py"
  count_samples :: int
  iter :: int

definition report :: "rounding \<Rightarrow> 'w train_state \<Rightarrow> error + 'w train_state" where
  "report ar st =
     and_then (py_item (acc st)) (\<lambda>a.
     and_then (py_div ar (of_int a) (count_samples st)) (\<lambda>q.
       Inr (st\<lparr>printed := printed st @ [AccLine (count_samples st) q]\<rparr>)))"

definition train_step ::
  "('w, 'x, real list list, real list list, int list, 'l) framework \<Rightarrow> rounding \<Rightarrow> int
   \<Rightarrow> int list \<times> 'x \<Rightarrow> 'w train_state \<Rightarrow> error + 'w train_state" where
  "train_step fw ar report_freq batch st =
     (case batch of (labels, features) \<Rightarrow>
        and_then (call_zero_grad fw st) (\<lambda>st.
        and_then (call_forward fw st features) (\<lambda>(out, st).
        and_then (call_loss fw st out labels) (\<lambda>(loss, st).
        and_then (call_backward fw st loss) (\<lambda>st.
        and_then (call_opt_step fw st) (\<lambda>st.
        (let st = st\<lparr>total_loss := py_add32 ar (total_loss st) (item fw loss)\<rparr> in
        and_then (argmax_rows out) (\<lambda>predicted.
        and_then (tensor_eq predicted labels) (\<lambda>eq.
        (let st = st\<lparr>acc := py_add (acc st) (count_true eq)\<rparr>;
             st = st\<lparr>count_samples := count_samples st + int (length labels)\<rparr>;
             st = st\<lparr>iter := iter st + 1\<rparr> in
        and_then (py_mod (iter st) report_freq) (\<lambda>r.
          if r = 0 then report ar st else Inr st)))))))))))"

text \<open>\<open>epoch_size and count>epoch_size\<close>: \<open>None\<close> and \<open>0\<close> are false.\<close>

definition stop_early :: "int option \<Rightarrow> int \<Rightarrow> bool" where
  "stop_early epoch_size c =
     (case epoch_size of None \<Rightarrow> False | Some e \<Rightarrow> e \<noteq> 0 \<and> e < c)"

fun train_loop ::
  "('w, 'x, real list list, real list list, int list, 'l) framework \<Rightarrow> rounding \<Rightarrow> int
   \<Rightarrow> int option \<Rightarrow> (int list \<times> 'x) list \<Rightarrow> 'w train_state \<Rightarrow> error + 'w train_state" where
  "train_loop fw ar report_freq epoch_size [] st = Inr st"
| "train_loop fw ar report_freq epoch_size (batch # dataloader) st =
     and_then (train_step fw ar report_freq batch st) (\<lambda>st.
       if stop_early epoch_size (count_samples st) then Inr st
       else train_loop fw ar report_freq epoch_size dataloader st)"

definition train_epoch ::
  "('w, 'x, real list list, real list list, int list, 'l) framework \<Rightarrow> rounding
   \<Rightarrow> (int list \<times> 'x) list \<Rightarrow> real \<Rightarrow> bool \<Rightarrow> int option \<Rightarrow> int \<Rightarrow> 'w machine
   \<Rightarrow> error + ((real \<times> real) \<times> 'w machine)" where
  "train_epoch fw ar dataloader lr optimizer epoch_size report_freq m =
     and_then (if optimizer then Inr (world m) else lift (adam fw (world m) lr)) (\<lambda>w.
     and_then (lift (train_mode fw w)) (\<lambda>w.
     and_then (train_loop fw ar report_freq epoch_size dataloader
                 \<lparr>world = w, calls = calls m, printed = printed m,
                  total_loss = PyInt 0, acc = PyInt 0, count_samples = 0, iter = 0\<rparr>) (\<lambda>st.
     and_then (py_item (total_loss st)) (\<lambda>l.
     and_then (py_div ar l (count_samples st)) (\<lambda>mean_loss.
     and_then (py_item (acc st)) (\<lambda>a.
     and_then (py_div ar (of_int a) (count_samples st)) (\<lambda>accuracy.
       Inr ((mean_loss, accuracy),
            \<lparr>world = world st, calls = calls st, printed = printed st\<rparr>))))))))"

section \<open>The evaluation loop of the fine-tuned classifier\<close>

text \<open>
  \<^verbatim>\<open>
  model.eval()
  iterations = 100
  acc = 0
  i = 0
  for (labels,heads,texts),_ in test_iter:
      labels = labels.to(device)-1
      texts = texts.to(device)
      texts = torch.transpose(texts,0,1)
      _, out = model(texts, labels=labels)[:2]
      labs = out.argmax(dim=1)
      acc += torch.mean((labs==labels).type(torch.float32))
      i+=1
      if i>iterations: break

  print(f"Final accuracy: {acc.item()/i}")
  \<close>
  The mean of a tensor without elements is not a number, and so is every sum with it.
  \<open>torch.transpose(texts,0,1)\<close> is the transpose of the matrix \<open>texts\<close>.
  The model is called with the texts and the labels and returns a loss and the scores.
  The state of the loop is the state of the run with the variables \<open>acc\<close> (here
  \<open>acc_sum\<close>) and \<open>i\<close>. The mean and the sums are float32 values, the final quotient
  is a Python float; \<open>ar\<close> holds the two roundings.
\<close>

definition float_mean :: "rounding \<Rightarrow> bool list \<Rightarrow> float" where
  "float_mean ar bs =
     (if bs = [] then NaN
      else Num (to_float32 ar (of_int (count_true bs) / of_nat (length bs))))"

definition float_add :: "rounding \<Rightarrow> float \<Rightarrow> float \<Rightarrow> float" where
  "float_add ar a b =
     (case (a, b) of (Num x, Num y) \<Rightarrow> Num (to_float32 ar (x + y)) | _ \<Rightarrow> NaN)"

definition float_py_add :: "rounding \<Rightarrow> float py \<Rightarrow> float \<Rightarrow> float py" where
  "float_py_add ar x v =
     (case x of PyInt n \<Rightarrow> Tensor (float_add ar (Num (of_int n)) v)
              | Tensor t \<Rightarrow> Tensor (float_add ar t v))"


definition eval_step ::
  "('w, nat list list \<times> int list, 'l \<times> real list list, 'p, 'y, 'l) framework \<Rightarrow> rounding
   \<Rightarrow> (int list \<times> 'h \<times> nat list list) \<times> 'u
   \<Rightarrow> ('w, 'z) machine_scheme \<times> float py \<times> int
   \<Rightarrow> error + (('w, 'z) machine_scheme \<times> float py \<times> int)" where
  "eval_step fw ar batch st =
     (case (batch, st) of (((labels, heads, texts), u), (m, acc_sum, i)) \<Rightarrow>
        (let labels = map (\<lambda>l. l - 1) labels;
             texts = transpose texts in
         and_then (call_forward fw m (texts, labels)) (\<lambda>((loss, out), m).
         and_then (argmax_rows out) (\<lambda>labs.
         and_then (tensor_eq labs labels) (\<lambda>eq.
           Inr (m, float_py_add ar acc_sum (float_mean ar eq), i + 1))))))"

fun eval_loop ::
  "('w, nat list list \<times> int list, 'l \<times> real list list, 'p, 'y, 'l) framework \<Rightarrow> rounding
   \<Rightarrow> int \<Rightarrow> ((int list \<times> 'h \<times> nat list list) \<times> 'u) list
   \<Rightarrow> ('w, 'z) machine_scheme \<times> float py \<times> int
   \<Rightarrow> error + (('w, 'z) machine_scheme \<times> float py \<times> int)" where
  "eval_loop fw ar iterations [] st = Inr st"
| "eval_loop fw ar iterations (batch # test_iter) st =
     and_then (eval_step fw ar batch st) (\<lambda>(m, acc_sum, i).
       if i > iterations then Inr (m, acc_sum, i)
       else eval_loop fw ar iterations test_iter (m, acc_sum, i))"


section \<open>The training loop of the generative network\<close>


definition sample_text ::
  "('w, nat list list \<times> 's option, real list list list \<times> 's, real list list list,
    nat list list, 'l) framework
   \<Rightarrow> (string \<Rightarrow> nat) \<Rightarrow> string list \<Rightarrow> 'l
   \<Rightarrow> ('w, 'z) machine_scheme \<Rightarrow> error + ('w, 'z) machine_scheme" where
  "sample_text fw stoi itos loss m =
     (let m = m\<lparr>printed := printed m @ [LossLine (item fw loss)]\<rparr> in
      and_then (generate fw stoi itos 100 ''today '' m) (\<lambda>(text, m).
        Inr (m\<lparr>printed := printed m @ [TextLine text]\<rparr>)))"

fun generative_loop ::
  "('w, nat list list \<times> 's option, real list list list \<times> 's, real list list list,
    nat list list, 'l) framework
   \<Rightarrow> (string \<Rightarrow> nat) \<Rightarrow> string list \<Rightarrow> nat \<Rightarrow> (int \<times> string list) list
   \<Rightarrow> ('w, 'z) machine_scheme \<times> int \<Rightarrow> error + (('w, 'z) machine_scheme \<times> int)" where
  "generative_loop fw stoi itos nchars [] st = Inr st"
| "generative_loop fw stoi itos nchars ((i, x) # examples) (m, samples_to_train) =
     (if int (length x) - int nchars < 10
      then generative_loop fw stoi itos nchars examples (m, samples_to_train)
      else if samples_to_train - 1 = 0 then Inr (m, samples_to_train - 1)
      else
        and_then (get_batch stoi x nchars) (\<lambda>(text_in, text_out).
        and_then (call_zero_grad fw m) (\<lambda>m.
        and_then (call_forward fw m (text_in, None)) (\<lambda>((out, s), m).
        and_then (call_loss fw m out text_out) (\<lambda>(loss, m).
        and_then (call_backward fw m loss) (\<lambda>m.
        and_then (call_opt_step fw m) (\<lambda>m.
        and_then (if i mod 1000 = 0 then sample_text fw stoi itos loss m else Inr m) (\<lambda>m.
          generative_loop fw stoi itos nchars examples (m, samples_to_train - 1)))))))))"


section \<open>Notions the properties of text generation are stated with\<close>

text \<open>
  A network over a vocabulary of \<open>vocab_size\<close> tokens, in the states \<open>fit\<close> admits (its
  parameters, and a recurrent state of the shape it expects): called in such a state
  on a batch of one non-empty sequence of indices below \<open>vocab_size\<close> it returns, its
  output is a batch of one matrix with one row of \<open>vocab_size\<close> logits per position of
  the sequence, and the state it leaves is admitted again. Nothing is asked of the
  network on other inputs: the notebook's \<open>LSTMGenerator\<close> one-hot encodes its input
  and raises on an index that is not below \<open>vocab_size\<close>.
\<close>

definition logits_network ::
  "('w, nat list list \<times> 's option, real list list list \<times> 's, 'p, 'y, 'l) framework
   \<Rightarrow> nat \<Rightarrow> ('w \<Rightarrow> 's option \<Rightarrow> bool) \<Rightarrow> bool" where
  "logits_network fw vocab_size fit =
     (\<forall>w sq st. fit w st \<longrightarrow> sq \<noteq> [] \<longrightarrow> (\<forall>i\<in>set sq. i < vocab_size) \<longrightarrow>
        (\<exists>out s' w'. forward fw w ([sq], st) = Inr ((out, s'), w')
           \<and> length out = 1 \<and> length (hd out) = length sq
           \<and> (\<forall>row\<in>set (hd out). length row = vocab_size)
           \<and> fit w' (Some s')))"

text \<open>
  The tokens chosen by repeated argmax, from the output \<open>out\<close> and the recurrent state
  \<open>s\<close> of the last call of the network: the first is the token whose index has the
  greatest logit in the last row of \<open>out\<close>, the others are those chosen from the answer
  of the network to that index and \<open>s\<close>.
\<close>

fun greedy_tokens ::
  "('w, nat list list \<times> 's option, real list list list \<times> 's, 'p, 'y, 'l) framework
   \<Rightarrow> 'c list list \<Rightarrow> nat \<Rightarrow> real list list list \<Rightarrow> 's \<Rightarrow> 'w \<Rightarrow> 'c list list" where
  "greedy_tokens fw itos 0 out s w = []"
| "greedy_tokens fw itos (Suc n) out s w =
     (let nc = argmax_list (last (hd out))
      in itos ! nc #
         (case forward fw w ([[nc]], Some s) of
            Inl msg \<Rightarrow> []
          | Inr ((out', s'), w') \<Rightarrow> greedy_tokens fw itos n out' s' w'))"

text \<open>
  A small framework for the examples: the vocabulary has the two tokens \<open><unk>\<close> and
  \<open>e\<close>, the network gives the logits 0 and 1 at every position, every other call
  returns at once. \<open>fresh\<close> is the state of a run before its first call.
\<close>

definition two_logits ::
  "(unit, nat list list \<times> unit option, real list list list \<times> unit, real list list list,
    nat list list, real) framework" where
  "two_logits =
     \<lparr>train_mode = Inr, eval_mode = Inr, adam = (\<lambda>w lr. Inr w), zero_grad = Inr,
      forward = (\<lambda>w (xs, st). Inr ((map (map (\<lambda>x. [0, 1])) xs, ()), w)),
      loss_fn = (\<lambda>out y. Inr 0), backward = (\<lambda>w loss. Inr w), opt_step = Inr,
      item = (\<lambda>loss. loss)\<rparr>"

definition unk_e :: "string \<Rightarrow> nat" where
  "unk_e t = (if t = ''e'' then 1 else 0)"

definition fresh :: "unit machine" where
  "fresh = \<lparr>world = (), calls = [], printed = []\<rparr>"

text \<open>
  The same network behind a one-hot encoding of its input, as the notebook's
  \<open>LSTMGenerator\<close> has it: an index that is not below the size of the vocabulary
  raises.
\<close>

definition onehot_like ::
  "(unit, nat list list \<times> unit option, real list list list \<times> unit, real list list list,
    nat list list, real) framework" where
  "onehot_like =
     two_logits\<lparr>forward := (\<lambda>w (xs, st).
        if list_all (list_all (\<lambda>i. i < 2)) xs
        then Inr ((map (map (\<lambda>x. [0, 1])) xs, ()), w)
        else Inl ''Class values must be smaller than num_classes.'')\<rparr>"

definition any_state :: "unit \<Rightarrow> unit option \<Rightarrow> bool" where
  "any_state w st = True"

section \<open>Notions the properties of the training loop are stated with\<close>

text \<open>
  One gradient step on a batch, from the state \<open>w\<close> of the framework: zero the gradients,
  forward pass, loss, backward pass, optimizer step. It yields the scores, the loss and the
  new state, or raises with the message of the first call that raises.
  \<open>gradient_steps\<close> makes one gradient step per batch, in order, and raises with the
  first of them that raises.
\<close>

definition gradient_step ::
  "('w, 'x, real list list, real list list, int list, 'l) framework \<Rightarrow> 'w \<Rightarrow> int list \<times> 'x
   \<Rightarrow> string + real list list \<times> 'l \<times> 'w" where
  "gradient_step fw w batch =
     (case zero_grad fw w of Inl msg \<Rightarrow> Inl msg | Inr w1 \<Rightarrow>
     (case forward fw w1 (snd batch) of Inl msg \<Rightarrow> Inl msg | Inr (out, w2) \<Rightarrow>
     (case loss_fn fw out (fst batch) of Inl msg \<Rightarrow> Inl msg | Inr loss \<Rightarrow>
     (case backward fw w2 loss of Inl msg \<Rightarrow> Inl msg | Inr w3 \<Rightarrow>
     (case opt_step fw w3 of Inl msg \<Rightarrow> Inl msg | Inr w4 \<Rightarrow> Inr (out, loss, w4))))))"

fun gradient_steps ::
  "('w, 'x, real list list, real list list, int list, 'l) framework \<Rightarrow> 'w
   \<Rightarrow> (int list \<times> 'x) list \<Rightarrow> string + (real list list \<times> 'l) list \<times> 'w" where
  "gradient_steps fw w [] = Inr ([], w)"
| "gradient_steps fw w (batch # batches) =
     (case gradient_step fw w batch of
        Inl msg \<Rightarrow> Inl msg
      | Inr (out, loss, w') \<Rightarrow>
          (case gradient_steps fw w' batches of
             Inl msg \<Rightarrow> Inl msg
           | Inr (steps, w'') \<Rightarrow> Inr ((out, loss) # steps, w'')))"

text \<open>
  The scores of a gradient step fit the batch: one row per label, and no row without
  scores.
\<close>

definition fits :: "real list list \<times> 'l \<Rightarrow> int list \<times> 'x \<Rightarrow> bool" where
  "fits step batch = (length (fst step) = length (fst batch) \<and> [] \<notin> set (fst step))"

text \<open>
  The number of correct predictions of a batch (rows whose greatest score is at the label),
  the number of samples of a list of batches, and the pairs of the number of samples and
  the number of correct predictions of each batch.
\<close>

definition correct :: "real list list \<Rightarrow> int list \<Rightarrow> int" where
  "correct out labels =
     int (length (filter (\<lambda>(row, l). int (argmax_list row) = l) (zip out labels)))"

definition samples :: "(int list \<times> 'x) list \<Rightarrow> int" where
  "samples batches = sum_list (map (\<lambda>batch. int (length (fst batch))) batches)"

definition tally :: "(real list list \<times> 'l) list \<Rightarrow> (int list \<times> 'x) list \<Rightarrow> (int \<times> int) list" where
  "tally steps batches =
     map (\<lambda>((out, loss), batch). (int (length (fst batch)), correct out (fst batch)))
       (zip steps batches)"

text \<open>
  The accumulated loss: the losses of the steps added one after the other to \<open>t0\<close> (0 at
  the start of a run), each sum rounded to a float32.
\<close>

definition accumulated ::
  "('w, 'x, 'o, 'p, 'y, 'l) framework \<Rightarrow> rounding \<Rightarrow> real \<Rightarrow> (real list list \<times> 'l) list
   \<Rightarrow> real" where
  "accumulated fw ar t0 steps =
     foldl (\<lambda>t step. to_float32 ar (t + item fw (snd step))) t0 steps"

text \<open>
  The number of batches of an epoch. Without an \<open>epoch_size\<close>, or with the \<open>epoch_size\<close>
  0, these are all the batches of the data loader; else the batches up to the first one
  with which the number of samples exceeds \<open>epoch_size\<close>, and all of them if there is
  none.
\<close>

definition epoch_batches :: "int option \<Rightarrow> (int list \<times> 'x) list \<Rightarrow> nat" where
  "epoch_batches epoch_size dataloader =
     (case epoch_size of
        None \<Rightarrow> length dataloader
      | Some e \<Rightarrow>
          if e = 0 then length dataloader
          else (case find (\<lambda>j. e < samples (take j dataloader)) [1 ..< length dataloader + 1] of
                  None \<Rightarrow> length dataloader
                | Some j \<Rightarrow> j))"

text \<open>
  The lines printed by a run over batches with the given numbers of samples and of correct
  predictions: after each batch whose number \<open>j\<close> (from 1) is a multiple of \<open>report_freq\<close>,
  the number of samples so far and the accuracy so far, a Python float.
\<close>

definition reports :: "rounding \<Rightarrow> int \<Rightarrow> (int \<times> int) list \<Rightarrow> line list" where
  "reports ar report_freq t =
     map (\<lambda>j. AccLine (sum_list (map fst (take j t)))
                (to_double ar (of_int (sum_list (map snd (take j t)))
                   / of_int (sum_list (map fst (take j t))))))
       (filter (\<lambda>j. int j mod report_freq = 0) [1 ..< length t + 1])"

text \<open>
  A small classifier for the examples: the scores always favour class 0, every loss is
  1, and the state of the framework counts the optimizer steps. In the examples every
  sum and every quotient is a float, so that nothing is rounded (\<open>no_rounding\<close>).
\<close>

definition first_class ::
  "(nat, nat list list, real list list, real list list, int list, real) framework" where
  "first_class =
     \<lparr>train_mode = Inr, eval_mode = Inr, adam = (\<lambda>w lr. Inr w), zero_grad = Inr,
      forward = (\<lambda>w features. Inr (map (\<lambda>x. [1, 0]) features, w)),
      loss_fn = (\<lambda>out labels. Inr 1), backward = (\<lambda>w loss. Inr w),
      opt_step = (\<lambda>w. Inr (w + 1)), item = (\<lambda>loss. loss)\<rparr>"

definition no_rounding :: rounding where
  "no_rounding = \<lparr>to_float32 = (\<lambda>x. x), to_double = (\<lambda>x. x)\<rparr>"


definition three_batches :: "(int list \<times> nat list list) list" where
  "three_batches = [([0, 1], [[1, 0], [0, 2]]), ([0, 0], [[3, 0], [1, 1]]), ([1], [[0, 0]])]"

definition start0 :: "nat machine" where
  "start0 = \<lparr>world = 0, calls = [], printed = []\<rparr>"

text \<open>
  A loss of \<open>2^24\<close> for the label 0 and of 1 for the other labels, and a rounding that is
  the one of float32 on the sums of the example: \<open>2^24 + 1\<close> is no float32, and is
  rounded to \<open>2^24\<close>.
\<close>

definition big_loss ::
  "(nat, nat list list, real list list, real list list, int list, real) framework" where
  "big_loss = first_class\<lparr>loss_fn := (\<lambda>out labels. Inr (if labels = [0] then 16777216 else 1))\<rparr>"

definition near_2_24 :: rounding where
  "near_2_24 = \<lparr>to_float32 = (\<lambda>x. if x = 16777217 then 16777216 else x), to_double = (\<lambda>x. x)\<rparr>"

section \<open>Notions the properties of the evaluation loop are stated with\<close>

text \<open>
  The accuracy of a batch from the scores of the model, and the accuracies of the batches
  of a list when the model is called on them one after the other. \<open>keeps fw params\<close>: a
  forward pass leaves the observation \<open>params\<close> of the state of the framework (the values
  of the parameters of the model, say) as it is.
\<close>

definition batch_accuracy :: "rounding \<Rightarrow> real list list \<Rightarrow> int list \<Rightarrow> float" where
  "batch_accuracy ar out labels =
     (case argmax_rows out of
        Inl e \<Rightarrow> NaN
      | Inr labs \<Rightarrow> (case tensor_eq labs labels of Inl e \<Rightarrow> NaN | Inr eq \<Rightarrow> float_mean ar eq))"

fun batch_accuracies ::
  "('w, nat list list \<times> int list, 'l \<times> real list list, 'p, 'y, 'l) framework \<Rightarrow> rounding
   \<Rightarrow> 'w \<Rightarrow> ((int list \<times> 'h \<times> nat list list) \<times> 'u) list \<Rightarrow> float list" where
  "batch_accuracies fw ar w [] = []"
| "batch_accuracies fw ar w (((labels, heads, texts), u) # test_iter) =
     (case forward fw w (transpose texts, map (\<lambda>l. l - 1) labels) of
        Inl msg \<Rightarrow> []
      | Inr ((loss, out), w') \<Rightarrow>
          batch_accuracy ar out (map (\<lambda>l. l - 1) labels)
            # batch_accuracies fw ar w' test_iter)"

definition keeps ::
  "('w, 'x, 'o, 'p, 'y, 'l) framework \<Rightarrow> ('w \<Rightarrow> 'v) \<Rightarrow> bool" where
  "keeps fw params = (\<forall>w x r w'. forward fw w x = Inr (r, w') \<longrightarrow> params w' = params w)"

text \<open>
  A small classifier for the examples, whose scores always favour class 1, and two test
  batches of two texts and of one text.
\<close>

definition second_class ::
  "(nat, nat list list \<times> int list, real \<times> real list list, real list list, int list, real)
     framework" where
  "second_class =
     \<lparr>train_mode = Inr, eval_mode = Inr, adam = (\<lambda>w lr. Inr w), zero_grad = Inr,
      forward = (\<lambda>w (texts, labels). Inr ((1, map (\<lambda>t. [0, 1, 0, 0]) texts), w)),
      loss_fn = (\<lambda>out labels. Inr 1), backward = (\<lambda>w loss. Inr w),
      opt_step = (\<lambda>w. Inr (w + 1)), item = (\<lambda>loss. loss)\<rparr>"

definition two_test_batches :: "((int list \<times> unit \<times> nat list list) \<times> unit) list" where
  "two_test_batches = [(([2, 1], (), [[5, 6], [7, 8]]), ()), (([2], (), [[9], [4]]), ())]"

section \<open>Notions the propagation of exceptions is stated with\<close>





section \<open>Auxiliary notions for the proofs\<close>

text \<open>The position that \<open>res[i]\<close> addresses, if any, and the increment at a position.\<close>

definition bow_pos :: "nat list \<Rightarrow> int \<Rightarrow> nat option" where
  "bow_pos res i =
     (let n = int (length res); j = (if i < 0 then i + n else i)
      in if 0 \<le> j \<and> j < n then Some (nat j) else None)"

definition incr_at :: "nat \<Rightarrow> nat list \<Rightarrow> nat list" where
  "incr_at k res = res[k := f32_incr (res ! k)]"

text \<open>One iteration of the loop of \<open>to_bow\<close>, on a result that may already be an error.\<close>

definition bow_step :: "int \<Rightarrow> int \<Rightarrow> error + nat list \<Rightarrow> error + nat list" where
  "bow_step n i r =
     (case r of
        Inl e \<Rightarrow> Inl e
      | Inr res \<Rightarrow> if i < n then tensor_incr res i else Inr res)"

text \<open>An output of the network from which \<open>generate\<close> can choose a token.\<close>

definition good_out :: "nat \<Rightarrow> real list list list \<Rightarrow> bool" where
  "good_out vocab_size out =
     (out \<noteq> [] \<and> hd out \<noteq> [] \<and> length (last (hd out)) = vocab_size)"

text \<open>The value of an accumulator, the calls of one iteration, and the state after a run.\<close>

definition py_val :: "'a::ring_1 py \<Rightarrow> 'a" where
  "py_val x = (case x of PyInt n \<Rightarrow> of_int n | Tensor t \<Rightarrow> t)"

definition step_calls :: "call list" where
  "step_calls = [ZeroGrad, Forward, Loss, Backward, OptStep]"

fun report_lines ::
  "rounding \<Rightarrow> int \<Rightarrow> int \<Rightarrow> int \<Rightarrow> int \<Rightarrow> (int \<times> int) list \<Rightarrow> line list" where
  "report_lines ar report_freq k c a [] = []"
| "report_lines ar report_freq k c a ((n, good) # rest) =
     (if (k + 1) mod report_freq = 0
      then [AccLine (c + n) (to_double ar (of_int (a + good) / of_int (c + n)))] else [])
     @ report_lines ar report_freq (k + 1) (c + n) (a + good) rest"

definition looped ::
  "('w, 'x, 'o, 'p, 'y, 'l) framework \<Rightarrow> rounding \<Rightarrow> int \<Rightarrow> 'w train_state
   \<Rightarrow> (real list list \<times> 'l) list \<Rightarrow> (int list \<times> 'x) list \<Rightarrow> 'w \<Rightarrow> 'w train_state" where
  "looped fw ar report_freq st steps batches w' =
     st\<lparr>world := w',
        calls := calls st @ concat (replicate (length steps) step_calls),
        printed := printed st @
          report_lines ar report_freq (iter st) (count_samples st) (py_val (acc st))
            (tally steps batches),
        total_loss := Tensor (accumulated fw ar (py_val (total_loss st)) steps),
        acc := Tensor (py_val (acc st) + sum_list (map snd (tally steps batches))),
        count_samples := count_samples st + samples batches,
        iter := iter st + int (length steps)\<rparr>"

chapter \<open>Verified properties\<close>

section \<open>Properties of the tokenizer\<close>

text \<open>
  C4: for every input string, \<open>char_tokenizer\<close> returns the string's characters in their
  original order, one list element (a string of length one) per input character: the
  output has the input's length, its element at position \<open>i\<close> is the one-character string
  of the input's character at \<open>i\<close>, and concatenating the output gives the input back.
\<close>

theorem char_tokenizer_chars:
  "length (char_tokenizer s) = length s
   \<and> concat (char_tokenizer s) = s
   \<and> (\<forall>i. i < length s \<longrightarrow> char_tokenizer s ! i = [s ! i])"
  by (induction s) (auto simp: char_tokenizer_def nth_Cons')

theorem char_tokenizer_chars_witness:
  "length (char_tokenizer ''abc'') = 3
   \<and> concat (char_tokenizer ''abc'') = ''abc''
   \<and> char_tokenizer ''abc'' ! 1 = ''b''"
  using char_tokenizer_chars [of "''abc''"] by simp

section \<open>Properties of the bag of words\<close>

lemma length_incr_at: "length (incr_at k res) = length res"
  by (simp add: incr_at_def)

lemma nth_incr_at:
  "l < length res \<Longrightarrow> incr_at k res ! l = (if l = k then f32_incr (res ! l) else res ! l)"
  by (simp add: incr_at_def)

lemma incr_at_commute: "incr_at k (incr_at l res) = incr_at l (incr_at k res)"
proof (cases "k = l")
  case True
  then show ?thesis by simp
next
  case False
  then show ?thesis by (simp add: incr_at_def list_update_swap)
qed

lemma tensor_incr_pos:
  "tensor_incr res i =
     (case bow_pos res i of None \<Rightarrow> Inl IndexError | Some k \<Rightarrow> Inr (incr_at k res))"
  by (simp add: tensor_incr_def bow_pos_def incr_at_def Let_def)

lemma bow_pos_incr_at: "bow_pos (incr_at k res) i = bow_pos res i"
  by (simp add: bow_pos_def length_incr_at)

lemma bow_step_Inl: "bow_step n i (Inl e) = Inl e"
  by (simp add: bow_step_def)

lemma bow_step_Inr:
  "bow_step n i (Inr res) = (if i < n then tensor_incr res i else Inr res)"
  by (simp add: bow_step_def)

lemma fold_bow_step_Inl: "fold (bow_step n) wordvec (Inl e) = Inl e"
  by (induction wordvec) (simp_all add: bow_step_Inl)

lemma to_bow_loop_fold:
  "to_bow_loop n wordvec res = fold (bow_step n) wordvec (Inr res)"
proof (induction wordvec arbitrary: res)
  case Nil
  show ?case by simp
next
  case (Cons i wordvec)
  show ?case
  proof (cases "i < n")
    case False
    then show ?thesis using Cons.IH by (simp add: bow_step_Inr)
  next
    case True
    then show ?thesis using Cons.IH
      by (cases "tensor_incr res i") (simp_all add: bow_step_Inr fold_bow_step_Inl)
  qed
qed

text \<open>Two iterations of the loop can be exchanged, also when one of them raises.\<close>

lemma bow_step_commute: "bow_step n i (bow_step n j r) = bow_step n j (bow_step n i r)"
proof (cases r)
  case (Inl e)
  then show ?thesis by (simp add: bow_step_Inl)
next
  case (Inr res)
  show ?thesis
    unfolding Inr
    by (cases "bow_pos res i"; cases "bow_pos res j")
       (simp_all add: bow_step_Inr bow_step_Inl tensor_incr_pos bow_pos_incr_at
          incr_at_commute)
qed

lemma to_bow_loop_mset:
  assumes "mset p = mset wordvec"
  shows "to_bow_loop n p res = to_bow_loop n wordvec res"
proof -
  have "fold (bow_step n) p = fold (bow_step n) wordvec"
    by (rule fold_multiset_equiv) (auto simp: fun_eq_iff bow_step_commute assms)
  then show ?thesis by (simp add: to_bow_loop_fold)
qed

lemma f32_incr_funpow:
  "(f32_incr ^^ m) c = (if c < f32_limit then min (c + m) f32_limit else c)"
  by (induction m) (auto simp: f32_incr_def)

lemma f32_incr_funpow_0: "(f32_incr ^^ m) 0 = min m f32_limit"
  by (simp add: f32_incr_funpow f32_limit_def)

lemma count_list_replicate: "count_list (replicate n x) x = n"
  by (induction n) auto

text \<open>
  The loop on non-negative indices never raises, keeps the length of \<open>res\<close>, and applies
  to entry \<open>k\<close> one float32 increment per occurrence of \<open>k\<close>.
\<close>

lemma to_bow_loop_counts:
  assumes "\<forall>i\<in>set wordvec. 0 \<le> i" and "n = int (length res)"
  shows "\<exists>res'. to_bow_loop n wordvec res = Inr res' \<and> length res' = length res
     \<and> (\<forall>k<length res. res' ! k = (f32_incr ^^ count_list wordvec (int k)) (res ! k))"
  using assms
proof (induction wordvec arbitrary: res)
  case Nil
  then show ?case by simp
next
  case (Cons i wordvec)
  show ?case
  proof (cases "i < n")
    case False
    then have "\<forall>k<length res. int k \<noteq> i" using Cons.prems by auto
    then show ?thesis using Cons.IH[of res] Cons.prems False by auto
  next
    case True
    then have pos: "bow_pos res i = Some (nat i)"
      using Cons.prems by (simp add: bow_pos_def)
    obtain res' where r: "to_bow_loop n wordvec (incr_at (nat i) res) = Inr res'"
       "length res' = length res"
       "\<forall>k<length res. res' ! k
          = (f32_incr ^^ count_list wordvec (int k)) (incr_at (nat i) res ! k)"
      using Cons.IH[of "incr_at (nat i) res"] Cons.prems by (auto simp: length_incr_at)
    have "res' ! k = (f32_incr ^^ count_list (i # wordvec) (int k)) (res ! k)"
      if "k < length res" for k
    proof (cases "int k = i")
      case True
      then have "count_list (i # wordvec) (int k) = Suc (count_list wordvec (int k))"
        and "k = nat i" by auto
      then show ?thesis using r(3) that
        by (simp add: nth_incr_at funpow_Suc_right del: funpow.simps)
    next
      case False
      then have "k \<noteq> nat i" using Cons.prems by auto
      then show ?thesis using r(3) that False by (simp add: nth_incr_at)
    qed
    then show ?thesis using True pos r by (simp add: tensor_incr_pos)
  qed
qed

lemma to_bow_entries:
  assumes "\<forall>i\<in>set wordvec. 0 \<le> i" and "0 \<le> n"
  shows "\<exists>res. to_bow wordvec n = Inr res \<and> length res = nat n
     \<and> (\<forall>k<nat n. res ! k = min (count_list wordvec (int k)) f32_limit)"
proof -
  have z: "torch_zeros n = Inr (replicate (nat n) 0)"
    using assms(2) by (simp add: torch_zeros_def)
  obtain res where r: "to_bow_loop n wordvec (replicate (nat n) 0) = Inr res"
    "length res = nat n"
    "\<forall>k<nat n. res ! k = (f32_incr ^^ count_list wordvec (int k)) (replicate (nat n) 0 ! k)"
    using to_bow_loop_counts[OF assms(1), of n "replicate (nat n) 0"] assms(2) by auto
  have "res ! k = min (count_list wordvec (int k)) f32_limit" if "k < nat n" for k
    using r(3) that by (simp add: f32_incr_funpow_0)
  then show ?thesis using z r(1,2) by (simp add: to_bow_def)
qed

text \<open>
  C1 (as amended): for every list \<open>wordvec\<close> of word indices (non-negative integers) and
  every non-negative \<open>bow_vocab_size\<close>, in particular every positive one,
  \<open>to_bow\<close> returns a vector of exactly \<open>bow_vocab_size\<close> entries whose entry \<open>k\<close> is the
  number of occurrences of \<open>k\<close> in \<open>wordvec\<close>, capped at \<open>2^24\<close> where the float32 entry
  stops growing. Indices that are at least \<open>bow_vocab_size\<close> contribute to no entry.
\<close>

theorem to_bow_counts:
  assumes "\<forall>i\<in>set wordvec. 0 \<le> i" and "0 \<le> bow_vocab_size"
  shows "\<exists>res. to_bow wordvec bow_vocab_size = Inr res
     \<and> length res = nat bow_vocab_size
     \<and> (\<forall>k<nat bow_vocab_size. res ! k = min (count_list wordvec (int k)) (2 ^ 24))"
  using to_bow_entries[OF assms] by (simp add: f32_limit_def)

theorem to_bow_counts_witness:
  "to_bow [2, 0, 2, 7] 3 = Inr [1, 0, 2]"
proof -
  have "\<forall>i\<in>set [2, 0, 2, 7 :: int]. 0 \<le> i" by simp
  moreover have "(0::int) \<le> 3" by simp
  ultimately obtain res where r: "to_bow [2, 0, 2, 7] 3 = Inr res" "length res = nat 3"
    "\<forall>k<nat 3. res ! k = min (count_list [2, 0, 2, 7 :: int] (int k)) (2 ^ 24)"
    using to_bow_counts[of "[2, 0, 2, 7]" 3] by blast
  have "res ! 0 = 1" "res ! Suc 0 = 0" "res ! Suc (Suc 0) = 2" using r(3) by simp_all
  moreover have "length res = 3" using r(2) by simp
  ultimately have "res = [1, 0, 2]"
    by (simp add: list_eq_iff_nth_eq less_Suc_eq numeral_3_eq_3)
  then show ?thesis using r(1) by simp
qed

text \<open>
  The claim as first stated (entry \<open>k\<close> equals the number of occurrences of \<open>k\<close>) fails on
  a list with more than \<open>2^24\<close> occurrences of one index: the entry stays at \<open>2^24\<close>.
\<close>

theorem to_bow_counts_counterexample:
  "to_bow (replicate 16777217 0) 1 = Inr [16777216]
   \<and> count_list (replicate 16777217 (0::int)) 0 = 16777217"
proof -
  have "\<forall>i\<in>set (replicate 16777217 (0::int)). 0 \<le> i" by simp
  then obtain res where r: "to_bow (replicate 16777217 0) 1 = Inr res" "length res = nat 1"
    "\<forall>k<nat 1. res ! k = min (count_list (replicate 16777217 (0::int)) (int k)) f32_limit"
    using to_bow_entries[of "replicate 16777217 0" 1] by auto
  have "res ! 0 = 16777216"
    using r(3) by (simp add: count_list_replicate f32_limit_def)
  moreover have "length res = 1" using r(2) by simp
  ultimately have "res = [16777216]"
    by (simp add: list_eq_iff_nth_eq)
  then show ?thesis using r(1) by (simp add: count_list_replicate)
qed

text \<open>
  C2: the bag of words is order-insensitive. For every list of word indices, every
  permutation \<open>p\<close> of it (a list with the same elements and multiplicities) and every
  vocabulary size \<open>n\<close>, \<open>to_bow\<close> gives the same result on both, an error included.
\<close>

theorem to_bow_order_insensitive:
  "mset p = mset wordvec \<Longrightarrow> to_bow p n = to_bow wordvec n"
  using to_bow_loop_mset [of p wordvec n]
  by (cases "torch_zeros n") (simp_all add: to_bow_def)

theorem to_bow_order_insensitive_witness:
  "mset [2, 0, 2, 7 :: int] = mset [7, 2, 2, 0]
   \<and> to_bow [2, 0, 2, 7] 3 = to_bow [7, 2, 2, 0] 3"
proof -
  have "mset [2, 0, 2, 7 :: int] = mset [7, 2, 2, 0]" by simp
  then show ?thesis using to_bow_order_insensitive[of "[2, 0, 2, 7]" "[7, 2, 2, 0]" 3] by simp
qed

section \<open>Properties of the minibatches\<close>

lemma length_slice: "b \<le> length s \<Longrightarrow> a \<le> b \<Longrightarrow> length (slice s a b) = b - a"
  by (simp add: slice_def)

lemma assign_row_full:
  "i < length m \<Longrightarrow> length t = cols \<Longrightarrow> assign_row cols m i t = Inr (m[i := t])"
  by (simp add: assign_row_def)

lemma get_batch_loop_rows:
  assumes "\<forall>i\<in>set rng. i < length ins \<and> i + nchars < length s"
    and "length outs = length ins"
  shows "\<exists>ins' outs'. get_batch_loop stoi s nchars rng ins outs = Inr (ins', outs')
     \<and> length ins' = length ins \<and> length outs' = length ins
     \<and> (\<forall>k<length ins.
            ins' ! k = (if k \<in> set rng then encode_text stoi (slice s k (k + nchars)) else ins ! k)
          \<and> outs' ! k = (if k \<in> set rng then encode_text stoi (slice s (k + 1) (k + nchars + 1))
                         else outs ! k))"
  using assms
proof (induction rng arbitrary: ins outs)
  case Nil
  then show ?case by simp
next
  case (Cons i rng)
  let ?a = "encode_text stoi (slice s i (i + nchars))"
  let ?b = "encode_text stoi (slice s (i + 1) (i + nchars + 1))"
  have i: "i < length ins" "i + nchars < length s" using Cons.prems by auto
  have la: "length ?a = nchars" using i by (simp add: encode_text_def length_slice)
  have lb: "length ?b = nchars" using i by (simp add: encode_text_def length_slice)
  have a: "assign_row nchars ins i ?a = Inr (ins[i := ?a])"
    using i la by (simp add: assign_row_full)
  have b: "assign_row nchars outs i ?b = Inr (outs[i := ?b])"
    using i lb Cons.prems(2) by (simp add: assign_row_full)
  obtain ins' outs' where r:
    "get_batch_loop stoi s nchars rng (ins[i := ?a]) (outs[i := ?b]) = Inr (ins', outs')"
    "length ins' = length ins" "length outs' = length ins"
    "\<forall>k<length ins.
        ins' ! k = (if k \<in> set rng then encode_text stoi (slice s k (k + nchars))
                    else ins[i := ?a] ! k)
      \<and> outs' ! k = (if k \<in> set rng then encode_text stoi (slice s (k + 1) (k + nchars + 1))
                     else outs[i := ?b] ! k)"
    using Cons.IH[of "ins[i := ?a]" "outs[i := ?b]"] Cons.prems by auto
  have "get_batch_loop stoi s nchars (i # rng) ins outs = Inr (ins', outs')"
    using a b r(1) by simp
  moreover have "ins' ! k = (if k \<in> set (i # rng) then encode_text stoi (slice s k (k + nchars)) else ins ! k)
      \<and> outs' ! k = (if k \<in> set (i # rng) then encode_text stoi (slice s (k + 1) (k + nchars + 1))
                     else outs ! k)" if "k < length ins" for k
    using r(4) that Cons.prems(2) by (cases "k = i") auto
  ultimately show ?case using r(2,3) by blast
qed

lemma get_batch_rows:
  assumes "nchars \<le> length s"
  shows "\<exists>ins outs. get_batch stoi s nchars = Inr (ins, outs)
     \<and> length ins = length s - nchars \<and> length outs = length s - nchars
     \<and> (\<forall>i<length s - nchars.
            ins ! i = encode_text stoi (slice s i (i + nchars))
          \<and> outs ! i = encode_text stoi (slice s (i + 1) (i + nchars + 1)))"
proof -
  let ?n = "length s - nchars"
  let ?z = "replicate ?n (replicate nchars (0::nat))"
  have n: "nat (int (length s) - int nchars) = ?n" using assms by simp
  have z: "torch_zeros2 (int (length s) - int nchars) (int nchars) = Inr ?z"
    using assms by (simp add: torch_zeros2_def n)
  have "\<forall>i\<in>set [0..<?n]. i < length ?z \<and> i + nchars < length s" by auto
  then obtain ins outs where r:
    "get_batch_loop stoi s nchars [0..<?n] ?z ?z = Inr (ins, outs)"
    "length ins = length ?z" "length outs = length ?z"
    "\<forall>k<length ?z.
        ins ! k = (if k \<in> set [0..<?n] then encode_text stoi (slice s k (k + nchars)) else ?z ! k)
      \<and> outs ! k = (if k \<in> set [0..<?n] then encode_text stoi (slice s (k + 1) (k + nchars + 1))
                     else ?z ! k)"
    using get_batch_loop_rows[of "[0..<?n]" ?z nchars s ?z stoi] by auto
  have "get_batch stoi s nchars = Inr (ins, outs)"
    using z r(1) by (simp add: get_batch_def n)
  moreover have "ins ! i = encode_text stoi (slice s i (i + nchars))
          \<and> outs ! i = encode_text stoi (slice s (i + 1) (i + nchars + 1))" if "i < ?n" for i
    using r(4) that by simp
  ultimately show ?thesis using r(2,3) by auto
qed

lemma get_batch_short:
  "length s < nchars \<Longrightarrow> get_batch stoi s nchars = Inl NegativeDimension"
  by (simp add: get_batch_def torch_zeros2_def)

lemma slice_shift:
  assumes "i + nchars < length s"
  shows "slice s (i + 1) (i + nchars + 1) = tl (slice s i (i + nchars) @ [s ! (i + nchars)])"
proof -
  have "take (Suc nchars) (drop i s) = take nchars (drop i s) @ [s ! (i + nchars)]"
    using assms by (simp add: take_Suc_conv_app_nth)
  moreover have "tl (take (Suc nchars) (drop i s)) = take nchars (drop (Suc i) s)"
    by (simp add: tl_take drop_Suc tl_drop)
  ultimately show ?thesis by (simp add: slice_def)
qed

text \<open>
  C8: for every character sequence \<open>s\<close> with \<open>len(s) > nchars\<close>, \<open>get_batch\<close> returns
  two matrices of \<open>len(s) - nchars\<close> rows and \<open>nchars\<close> columns; row \<open>i\<close> of the first
  encodes \<open>s[i : i+nchars]\<close> and row \<open>i\<close> of the second encodes \<open>s[i+1 : i+nchars+1]\<close>.
  So each output row is the input row shifted one position to the left with the next
  character appended, and input row \<open>i+1\<close> is output row \<open>i\<close>.
\<close>

theorem get_batch_windows:
  assumes "nchars < length s"
  shows "\<exists>ins outs. get_batch stoi s nchars = Inr (ins, outs)
     \<and> length ins = length s - nchars \<and> length outs = length s - nchars
     \<and> (\<forall>i<length s - nchars.
            length (ins ! i) = nchars \<and> length (outs ! i) = nchars
          \<and> ins ! i = encode_text stoi (slice s i (i + nchars))
          \<and> outs ! i = encode_text stoi (slice s (i + 1) (i + nchars + 1))
          \<and> outs ! i = tl (ins ! i @ [stoi (s ! (i + nchars))]))
     \<and> (\<forall>i. i + 1 < length s - nchars \<longrightarrow> ins ! (i + 1) = outs ! i)"
proof -
  obtain ins outs where r: "get_batch stoi s nchars = Inr (ins, outs)"
    "length ins = length s - nchars" "length outs = length s - nchars"
    "\<forall>i<length s - nchars.
        ins ! i = encode_text stoi (slice s i (i + nchars))
      \<and> outs ! i = encode_text stoi (slice s (i + 1) (i + nchars + 1))"
    using get_batch_rows[of nchars s stoi] assms by auto
  have row: "length (ins ! i) = nchars \<and> length (outs ! i) = nchars
          \<and> ins ! i = encode_text stoi (slice s i (i + nchars))
          \<and> outs ! i = encode_text stoi (slice s (i + 1) (i + nchars + 1))
          \<and> outs ! i = tl (ins ! i @ [stoi (s ! (i + nchars))])"
    if "i < length s - nchars" for i
  proof -
    have i: "i + nchars < length s" using that by simp
    have "outs ! i = tl (ins ! i @ [stoi (s ! (i + nchars))])"
      using r(4) that slice_shift[OF i] by (simp add: encode_text_def map_tl)
    then show ?thesis using r(4) that i by (simp add: encode_text_def length_slice)
  qed
  have "ins ! (i + 1) = outs ! i" if "i + 1 < length s - nchars" for i
  proof -
    have "i < length s - nchars" using that by simp
    then show ?thesis using r(4) that by (simp add: add.commute add.left_commute)
  qed
  then show ?thesis using r(1,2,3) row by blast
qed

theorem get_batch_windows_witness:
  "get_batch of_char ''abcd'' 2 = Inr ([[97, 98], [98, 99]], [[98, 99], [99, 100]])"
proof -
  have "2 < length ''abcd''" by simp
  then obtain ins outs where r: "get_batch of_char ''abcd'' 2 = Inr (ins, outs)"
    "length ins = length ''abcd'' - 2" "length outs = length ''abcd'' - 2"
    "\<forall>i<length ''abcd'' - 2.
        ins ! i = encode_text of_char (slice ''abcd'' i (i + 2))
      \<and> outs ! i = encode_text of_char (slice ''abcd'' (i + 1) (i + 2 + 1))"
    using get_batch_windows[of 2 "''abcd''" of_char] by auto
  have "ins ! 0 = [97, 98]" "ins ! Suc 0 = [98, 99]" "outs ! 0 = [98, 99]"
    "outs ! Suc 0 = [99, 100]"
    using r(4) by (simp_all add: encode_text_def slice_def)
  moreover have "length ins = Suc (Suc 0)" "length outs = Suc (Suc 0)" using r(2,3) by simp_all
  ultimately have "ins = [[97, 98], [98, 99]]" "outs = [[98, 99], [99, 100]]"
    by (simp_all add: list_eq_iff_nth_eq less_Suc_eq)
  then show ?thesis using r(1) by simp
qed

section \<open>Properties of text generation\<close>

lemma argmax_list_less: "row \<noteq> [] \<Longrightarrow> argmax_list row < length row"
  by (induction row rule: argmax_list.induct) (auto simp: Let_def)

lemma and_then_Inr: "and_then (Inr v) f = f v"
  by (simp add: and_then_def)

lemma and_then_Inl: "and_then (Inl e) f = Inl e"
  by (simp add: and_then_def)

lemma logits_network_forward:
  assumes "logits_network fw vs fit" and "fit w st" and "sq \<noteq> []" and "\<forall>i\<in>set sq. i < vs"
  shows "\<exists>out s' w'. forward fw w ([sq], st) = Inr ((out, s'), w') \<and> good_out vs out
           \<and> fit w' (Some s')"
proof -
  obtain out s' w' where f: "forward fw w ([sq], st) = Inr ((out, s'), w')"
    "length out = 1" "length (hd out) = length sq" "\<forall>row\<in>set (hd out). length row = vs"
    "fit w' (Some s')"
    using assms unfolding logits_network_def by blast
  have "hd out \<noteq> []" using f(3) assms(3) by auto
  moreover then have "last (hd out) \<in> set (hd out)" by simp
  moreover have "out \<noteq> []" using f(2) by auto
  ultimately have "good_out vs out" using f(4) by (simp add: good_out_def)
  then show ?thesis using f(1,5) by blast
qed

lemma call_forward_ok:
  "forward fw (world m) x = Inr (r, w')
   \<Longrightarrow> call_forward fw m x = Inr (r, m\<lparr>world := w', calls := calls m @ [Forward]\<rparr>)"
  by (simp add: call_forward_def lift_def and_then_def)

lemma generate_loop_tokens:
  assumes "logits_network fw (length itos) fit" and "itos \<noteq> []"
    and "good_out (length itos) out" and "fit (world m) (Some s)"
  shows "\<exists>m'. generate_loop fw itos n chars out s m
            = Inr (chars @ greedy_tokens fw itos n out s (world m), m')
         \<and> calls m' = calls m @ replicate n Forward \<and> printed m' = printed m
         \<and> length (greedy_tokens fw itos n out s (world m)) = n
         \<and> set (greedy_tokens fw itos n out s (world m)) \<subseteq> set itos"
  using assms(3,4)
proof (induction n arbitrary: chars out s m)
  case 0
  then show ?case by simp
next
  case (Suc n)
  define row where "row = last (hd out)"
  define nc where "nc = argmax_list row"
  have out: "out \<noteq> []" "hd out \<noteq> []" "length row = length itos"
    using Suc.prems(1) by (simp_all add: good_out_def row_def)
  have row: "row \<noteq> []" using out(3) assms(2) by auto
  have nc: "nc < length itos" using argmax_list_less[OF row] out(3) by (simp add: nc_def)
  obtain out' s' w' where f: "forward fw (world m) ([[nc]], Some s) = Inr ((out', s'), w')"
    "good_out (length itos) out'" "fit w' (Some s')"
    using logits_network_forward[OF assms(1) Suc.prems(2), of "[nc]"] nc by auto
  let ?m1 = "m\<lparr>world := w', calls := calls m @ [Forward]\<rparr>"
  have fit1: "fit (world ?m1) (Some s')" using f(3) by simp
  obtain m' where r: "generate_loop fw itos n (chars @ [itos ! nc]) out' s' ?m1
            = Inr ((chars @ [itos ! nc]) @ greedy_tokens fw itos n out' s' (world ?m1), m')"
      "calls m' = calls ?m1 @ replicate n Forward" "printed m' = printed ?m1"
      "length (greedy_tokens fw itos n out' s' (world ?m1)) = n"
      "set (greedy_tokens fw itos n out' s' (world ?m1)) \<subseteq> set itos"
    using Suc.IH[OF f(2) fit1, of "chars @ [itos ! nc]"] by blast
  have g: "greedy_tokens fw itos (Suc n) out s (world m)
         = itos ! nc # greedy_tokens fw itos n out' s' w'"
    using f(1) by (simp add: Let_def nc_def row_def)
  have "py_index0 out = Inr (hd out)" using out(1) by (cases out) (simp_all add: py_index0_def)
  moreover have "py_last (hd out) = Inr row" using out(2) by (simp add: py_last_def row_def)
  moreover have "argmax row = Inr nc" using row by (simp add: argmax_def nc_def)
  moreover have "py_index itos nc = Inr (itos ! nc)" using nc by (simp add: py_index_def)
  ultimately have "generate_loop fw itos (Suc n) chars out s m
     = generate_loop fw itos n (chars @ [itos ! nc]) out' s' ?m1"
    using call_forward_ok[OF f(1)] by (simp add: and_then_Inr)
  then have "generate_loop fw itos (Suc n) chars out s m
     = Inr (chars @ greedy_tokens fw itos (Suc n) out s (world m), m')"
    using r(1) g by simp
  moreover have "calls m' = calls m @ replicate (Suc n) Forward"
    using r(2) by (simp add: replicate_app_Cons_same)
  moreover have "printed m' = printed m" using r(3) by simp
  moreover have "length (greedy_tokens fw itos (Suc n) out s (world m)) = Suc n"
    using r(4) g by simp
  moreover have "set (greedy_tokens fw itos (Suc n) out s (world m)) \<subseteq> set itos"
    using r(5) g nc by simp
  ultimately show ?case by blast
qed

lemma logits_network_onehot_like: "logits_network onehot_like 2 any_state"
  by (simp add: logits_network_def onehot_like_def two_logits_def any_state_def list_all_iff)

text \<open>
  C10 (as amended): for every network over the vocabulary \<open>itos\<close>, every \<open>size \<ge> 0\<close> and
  every non-empty start string (whose characters \<open>stoi\<close> sends to indices of the
  vocabulary, as the \<open>stoi\<close> of a vocabulary does), \<open>generate\<close> returns the start string
  followed by exactly \<open>size\<close> tokens of the vocabulary, chosen by repeated argmax, after
  \<open>size + 1\<close> calls of the network; when every chosen token is a single character the
  result has length \<open>len(start) + size\<close>. The network has to answer only sequences of
  indices of the vocabulary, in the states the run can be in.
\<close>

theorem generate_text:
  assumes "logits_network fw (length itos) fit" and "fit (world m) None"
    and "itos \<noteq> []" and "start \<noteq> []" and "\<forall>c\<in>set start. stoi [c] < length itos"
  shows "\<exists>out s w toks m'.
       forward fw (world m) ([encode_text stoi (char_tokenizer start)], None) = Inr ((out, s), w)
     \<and> toks = greedy_tokens fw itos size' out s w
     \<and> generate fw stoi itos size' start m = Inr (start @ concat toks, m')
     \<and> length toks = size' \<and> set toks \<subseteq> set itos
     \<and> calls m' = calls m @ replicate (Suc size') Forward \<and> printed m' = printed m
     \<and> ((\<forall>t\<in>set toks. length t = 1) \<longrightarrow> length (start @ concat toks) = length start + size')"
proof -
  let ?chars = "char_tokenizer start"
  have ne: "encode_text stoi ?chars \<noteq> []"
    using assms(4) by (simp add: encode_text_def char_tokenizer_def)
  have voc: "\<forall>i\<in>set (encode_text stoi ?chars). i < length itos"
    using assms(5) by (auto simp: encode_text_def char_tokenizer_def)
  obtain out s w where f:
    "forward fw (world m) ([encode_text stoi ?chars], None) = Inr ((out, s), w)"
    "good_out (length itos) out" "fit w (Some s)"
    using logits_network_forward[OF assms(1,2) ne voc] by auto
  let ?m1 = "m\<lparr>world := w, calls := calls m @ [Forward]\<rparr>"
  have fit1: "fit (world ?m1) (Some s)" using f(3) by simp
  define toks where "toks = greedy_tokens fw itos size' out s w"
  obtain m' where r: "generate_loop fw itos size' ?chars out s ?m1 = Inr (?chars @ toks, m')"
    "calls m' = calls ?m1 @ replicate size' Forward" "printed m' = printed ?m1"
    "length toks = size'" "set toks \<subseteq> set itos"
    using generate_loop_tokens[OF assms(1,3) f(2) fit1, of size' ?chars]
    by (auto simp: toks_def)
  have cc: "concat ?chars = start" by (induction start) (simp_all add: char_tokenizer_def)
  have "generate fw stoi itos size' start m = Inr (start @ concat toks, m')"
    using call_forward_ok[OF f(1)] r(1) cc by (simp add: generate_def and_then_Inr)
  moreover have "calls m' = calls m @ replicate (Suc size') Forward"
    using r(2) by (simp add: replicate_app_Cons_same)
  moreover have "printed m' = printed m" using r(3) by simp
  moreover have "length (concat toks) = size'" if "\<forall>t\<in>set toks. length t = 1"
  proof -
    have "map length toks = replicate (length toks) 1"
      using that by (induction toks) simp_all
    then show ?thesis using r(4) by (simp add: length_concat sum_list_replicate)
  qed
  ultimately show ?thesis using f(1) r(4,5) toks_def by auto
qed

theorem generate_text_witness:
  "\<exists>m'. generate onehot_like unk_e [''<unk>'', ''e''] (Suc (Suc (Suc 0))) ''hi'' fresh
          = Inr (''hieee'', m')
      \<and> calls m' = [Forward, Forward, Forward, Forward]"
proof -
  have n: "logits_network onehot_like (length [''<unk>'', ''e'']) any_state"
    using logits_network_onehot_like by (simp add: numeral_2_eq_2)
  have a: "any_state (world fresh) None" by (simp add: any_state_def)
  have i: "[''<unk>'', ''e''] \<noteq> []" "''hi'' \<noteq> []" by simp_all
  have v: "\<forall>c\<in>set ''hi''. unk_e [c] < length [''<unk>'', ''e'']"
    by (simp add: unk_e_def)
  obtain out s w toks m' where r:
    "forward onehot_like (world fresh) ([encode_text unk_e (char_tokenizer ''hi'')], None)
       = Inr ((out, s), w)"
    "toks = greedy_tokens onehot_like [''<unk>'', ''e''] (Suc (Suc (Suc 0))) out s w"
    "generate onehot_like unk_e [''<unk>'', ''e''] (Suc (Suc (Suc 0))) ''hi'' fresh
       = Inr (''hi'' @ concat toks, m')"
    "calls m' = calls fresh @ replicate (Suc (Suc (Suc (Suc 0)))) Forward"
    using generate_text[OF n a i v, of "Suc (Suc (Suc 0))"] by blast
  have out: "out = [[[0, 1], [0, 1]]]"
    using r(1) by (simp add: onehot_like_def two_logits_def encode_text_def char_tokenizer_def
        unk_e_def)
  have "toks = [''e'', ''e'', ''e'']"
    unfolding r(2) out by (simp add: onehot_like_def two_logits_def Let_def)
  then show ?thesis using r(3,4) by (simp add: fresh_def)
qed

text \<open>
  With the empty start string the first output of the network has no row, and
  \<open>out[0][-1]\<close> raises: the claim as first stated, for every start string, fails.
\<close>

theorem generate_text_counterexample:
  "generate onehot_like unk_e [''<unk>'', ''e''] 1 [] fresh = Inl IndexError"
  by (simp add: generate_def char_tokenizer_def encode_text_def call_forward_def onehot_like_def
      two_logits_def lift_def and_then_def py_index0_def py_last_def)

section \<open>Properties of the training loop\<close>

lemma py_add_Tensor: "py_add x v = Tensor (py_val x + v)"
  by (cases x) (simp_all add: py_add_def py_val_def)

lemma py_add32_Tensor: "py_add32 ar x v = Tensor (to_float32 ar (py_val x + v))"
  by (cases x) (simp_all add: py_add32_def py_val_def)

lemma tensor_eq_correct:
  "length predicted = length labels \<Longrightarrow> predicted = map argmax_list out
   \<Longrightarrow> \<exists>eq. tensor_eq predicted labels = Inr eq \<and> count_true eq = correct out labels"
  by (simp add: tensor_eq_def count_true_def correct_def zip_map1 filter_map o_def
       split_def)

lemma gradient_step_calls:
  assumes "gradient_step fw w (labels, features) = Inr (out, loss, w')"
  shows "\<exists>w1 w2 w3. zero_grad fw w = Inr w1 \<and> forward fw w1 features = Inr (out, w2)
     \<and> loss_fn fw out labels = Inr loss \<and> backward fw w2 loss = Inr w3
     \<and> opt_step fw w3 = Inr w'"
  using assms by (auto simp: gradient_step_def split: sum.splits prod.splits)

lemma train_step_ok:
  assumes "gradient_step fw (world st) (labels, features) = Inr (out, loss, w')"
    and "fits (out, loss) (labels, features)"
    and "report_freq \<noteq> 0" and "count_samples st + int (length labels) \<noteq> 0"
  shows "train_step fw ar report_freq (labels, features) st
         = Inr (looped fw ar report_freq st [(out, loss)] [(labels, features)] w')"
proof -
  obtain w1 w2 w3 where c: "zero_grad fw (world st) = Inr w1"
    "forward fw w1 features = Inr (out, w2)" "loss_fn fw out labels = Inr loss"
    "backward fw w2 loss = Inr w3" "opt_step fw w3 = Inr w'"
    using gradient_step_calls[OF assms(1)] by blast
  have f: "length out = length labels" "[] \<notin> set out"
    using assms(2) by (simp_all add: fits_def)
  have a: "argmax_rows out = Inr (map argmax_list out)"
    using f(2) by (simp add: argmax_rows_def)
  obtain eq where e: "tensor_eq (map argmax_list out) labels = Inr eq"
    "count_true eq = correct out labels"
    using tensor_eq_correct[of "map argmax_list out" labels out] f(1) by auto
  show ?thesis
    using c a e assms(3,4)
    by (simp add: train_step_def call_zero_grad_def call_forward_def call_loss_def
        call_backward_def call_opt_step_def lift_def and_then_Inr py_add_Tensor
        py_add32_Tensor py_mod_def report_def py_item_def py_div_def step_calls_def Let_def
        looped_def tally_def accumulated_def samples_def)
qed

lemma looped_looped:
  "looped fw ar report_freq (looped fw ar report_freq st [step] [batch] w1) steps batches w2
   = looped fw ar report_freq st (step # steps) (batch # batches) w2"
  by (cases step)
     (simp add: looped_def tally_def accumulated_def samples_def py_val_def add.assoc)

lemma gradient_steps_Cons:
  assumes "gradient_steps fw w (batch # batches) = Inr (steps, w')"
  shows "\<exists>out loss w1 rest. gradient_step fw w batch = Inr (out, loss, w1)
     \<and> gradient_steps fw w1 batches = Inr (rest, w') \<and> steps = (out, loss) # rest"
  using assms by (auto split: sum.splits prod.splits)

lemma samples_Cons: "samples (batch # batches) = int (length (fst batch)) + samples batches"
  by (simp add: samples_def)

lemma samples_nonneg: "0 \<le> samples batches"
  by (induction batches) (simp_all add: samples_def)

lemma train_loop_ok:
  assumes "report_freq \<noteq> 0" and "batches \<noteq> []"
    and "gradient_steps fw (world st) batches = Inr (steps, w')"
    and "list_all2 fits steps batches"
    and "\<forall>batch\<in>set batches. fst batch \<noteq> []" and "0 \<le> count_samples st"
    and "\<forall>j. 0 < j \<and> j < length batches
           \<longrightarrow> \<not> stop_early epoch_size (count_samples st + samples (take j batches))"
    and "rest = [] \<or> stop_early epoch_size (count_samples st + samples batches)"
  shows "train_loop fw ar report_freq epoch_size (batches @ rest) st
         = Inr (looped fw ar report_freq st steps batches w')"
  using assms(2-8)
proof (induction batches arbitrary: st steps rule: list_nonempty_induct)
  case (single batch)
  obtain labels features where b: "batch = (labels, features)" by (cases batch)
  obtain out loss where g: "gradient_step fw (world st) (labels, features) = Inr (out, loss, w')"
    "steps = [(out, loss)]"
    using gradient_steps_Cons[OF single.prems(1)] b by auto
  have f: "fits (out, loss) (labels, features)" using single.prems(2) g(2) b by simp
  have c: "count_samples st + int (length labels) \<noteq> 0"
    using single.prems(3,4) b by (cases labels) auto
  let ?st1 = "looped fw ar report_freq st [(out, loss)] [(labels, features)] w'"
  have c1: "count_samples ?st1 = count_samples st + samples [batch]"
    by (simp add: looped_def b)
  show ?case
    using train_step_ok[OF g(1) f assms(1) c, of ar] single.prems(6) c1
    by (cases rest) (auto simp: b g(2) and_then_Inr)
next
  case (cons batch batches)
  obtain labels features where b: "batch = (labels, features)" by (cases batch)
  obtain out loss w1 rest' where g:
    "gradient_step fw (world st) (labels, features) = Inr (out, loss, w1)"
    "gradient_steps fw w1 batches = Inr (rest', w')" "steps = (out, loss) # rest'"
    using gradient_steps_Cons[OF cons.prems(1)] b by auto
  have f: "fits (out, loss) (labels, features)" "list_all2 fits rest' batches"
    using cons.prems(2) g(3) b by simp_all
  have c: "count_samples st + int (length labels) \<noteq> 0"
    using cons.prems(3,4) b by (cases labels) auto
  let ?st1 = "looped fw ar report_freq st [(out, loss)] [(labels, features)] w1"
  have s1: "train_step fw ar report_freq (labels, features) st = Inr ?st1"
    using train_step_ok[OF g(1) f(1) assms(1) c] .
  have c1: "count_samples ?st1 = count_samples st + int (length labels)"
    and w1: "world ?st1 = w1"
    by (simp_all add: looped_def samples_def)
  have go: "\<not> stop_early epoch_size (count_samples ?st1)"
    using cons.prems(5)[rule_format, of 1] cons.hyps(1) c1 b by (simp add: samples_def)
  have p1: "gradient_steps fw (world ?st1) batches = Inr (rest', w')" using g(2) w1 by simp
  have p3: "\<forall>batch\<in>set batches. fst batch \<noteq> []" using cons.prems(3) by simp
  have p4: "0 \<le> count_samples ?st1" using c1 cons.prems(4) by simp
  have p5: "\<forall>j. 0 < j \<and> j < length batches
     \<longrightarrow> \<not> stop_early epoch_size (count_samples ?st1 + samples (take j batches))"
  proof (intro allI impI)
    fix j assume j: "0 < j \<and> j < length batches"
    then have "\<not> stop_early epoch_size
        (count_samples st + samples (take (Suc j) (batch # batches)))"
      using cons.prems(5)[rule_format, of "Suc j"] by simp
    then show "\<not> stop_early epoch_size (count_samples ?st1 + samples (take j batches))"
      using c1 b by (simp add: samples_Cons add.assoc)
  qed
  have p6: "rest = [] \<or> stop_early epoch_size (count_samples ?st1 + samples batches)"
    using cons.prems(6) c1 b by (simp add: samples_Cons add.assoc)
  have "train_loop fw ar report_freq epoch_size (batches @ rest) ?st1
         = Inr (looped fw ar report_freq ?st1 rest' batches w')"
    using cons.IH[OF p1 f(2) p3 p4 p5 p6] .
  then show ?case
    using s1 go by (simp add: b g(3) and_then_Inr looped_looped)
qed

lemma upt_1_Suc: "[1 ..< Suc n + 1] = 1 # map Suc [1 ..< n + 1]"
proof -
  have "[1 ..< Suc n + 1] = 1 # [Suc 1 ..< Suc (n + 1)]"
    by (simp add: upt_conv_Cons)
  also have "[Suc 1 ..< Suc (n + 1)] = map Suc [1 ..< n + 1]"
    by (simp only: map_Suc_upt)
  finally show ?thesis .
qed

lemma report_lines_reports:
  "report_lines ar report_freq k c a t =
     map (\<lambda>j. AccLine (c + sum_list (map fst (take j t)))
                (to_double ar (of_int (a + sum_list (map snd (take j t)))
                   / of_int (c + sum_list (map fst (take j t))))))
       (filter (\<lambda>j. (k + int j) mod report_freq = 0) [1 ..< length t + 1])"
proof (induction t arbitrary: k c a)
  case Nil
  show ?case by simp
next
  case (Cons x t)
  obtain n good where x: "x = (n, good)" by (cases x)
  have "[1 ..< length (x # t) + 1] = 1 # map Suc [1 ..< length t + 1]"
    using upt_1_Suc[of "length t"] by simp
  then show ?case
    unfolding x
    by (simp add: Cons.IH filter_map o_def add.assoc add.commute add.left_commute)
qed

lemma report_lines_0: "report_lines ar report_freq 0 0 0 t = reports ar report_freq t"
  by (simp add: report_lines_reports reports_def)

lemma stop_early_Some: "e \<noteq> 0 \<Longrightarrow> stop_early (Some e) c = (e < c)"
  by (simp add: stop_early_def)

lemma epoch_batches_stop:
  assumes "dataloader \<noteq> []"
  shows "0 < epoch_batches epoch_size dataloader
     \<and> epoch_batches epoch_size dataloader \<le> length dataloader
     \<and> (\<forall>j. 0 < j \<and> j < epoch_batches epoch_size dataloader
            \<longrightarrow> \<not> stop_early epoch_size (samples (take j dataloader)))
     \<and> (epoch_batches epoch_size dataloader < length dataloader
            \<longrightarrow> stop_early epoch_size (samples (take (epoch_batches epoch_size dataloader) dataloader)))"
proof (cases "\<exists>e. epoch_size = Some e \<and> e \<noteq> 0")
  case False
  then have "epoch_batches epoch_size dataloader = length dataloader"
    and "\<And>c. \<not> stop_early epoch_size c"
    by (auto simp: epoch_batches_def stop_early_def split: option.splits)
  then show ?thesis using assms by simp
next
  case True
  then obtain e where e: "epoch_size = Some e" "e \<noteq> 0" by blast
  let ?P = "\<lambda>j. e < samples (take j dataloader)"
  let ?n = "length dataloader"
  show ?thesis
  proof (cases "find ?P [1 ..< ?n + 1]")
    case None
    then have k: "epoch_batches epoch_size dataloader = ?n"
      using e by (simp add: epoch_batches_def)
    have "\<not> ?P j" if "0 < j \<and> j < ?n" for j
    proof -
      have "j \<in> set [1 ..< ?n + 1]" using that by simp
      then show ?thesis using None unfolding find_None_iff by blast
    qed
    then show ?thesis using k e assms by (simp add: stop_early_Some)
  next
    case (Some j0)
    then have k: "epoch_batches epoch_size dataloader = j0"
      using e by (simp add: epoch_batches_def)
    obtain i where i: "i < length [1 ..< ?n + 1]" "?P ([1 ..< ?n + 1] ! i)"
      "j0 = [1 ..< ?n + 1] ! i" "\<forall>j<i. \<not> ?P ([1 ..< ?n + 1] ! j)"
      using Some unfolding find_Some_iff by blast
    have j0: "i < ?n" "j0 = Suc i" using i(1,3) by (simp_all del: upt_Suc)
    have "\<not> ?P j" if jj: "0 < j \<and> j < j0" for j
    proof -
      obtain j' where j': "j = Suc j'" using jj by (cases j) auto
      have "j' < i" using jj j0 j' by simp
      then have "\<not> ?P ([1 ..< ?n + 1] ! j')" using i(4) by blast
      moreover have "[1 ..< ?n + 1] ! j' = j"
        using \<open>j' < i\<close> j0(1) j' by (simp del: upt_Suc)
      ultimately show ?thesis by simp
    qed
    moreover have "?P j0" using i(2,3) by simp
    ultimately show ?thesis using k e j0 by (simp add: stop_early_Some)
  qed
qed

lemma gradient_steps_length:
  "gradient_steps fw w batches = Inr (steps, w') \<Longrightarrow> length steps = length batches"
  by (induction batches arbitrary: w steps) (auto split: sum.splits prod.splits)

text \<open>
  C6 (as amended): for every non-empty data loader, when the calls into the framework that
  the run makes return, the network gives one non-empty row of scores per label, the
  batches of the epoch are not empty and \<open>report_freq\<close> is not 0, \<open>train_epoch\<close> processes
  the batches of the epoch: those up to the first one with which the number of processed
  samples exceeds an \<open>epoch_size\<close> that is given and not 0, and else all of them
  (\<open>epoch_batches\<close>). It makes exactly one gradient step per processed batch (zero
  gradients, forward pass, loss, backward pass, optimizer step, in this order), prints the
  accumulated number of samples and accuracy after every \<open>report_freq\<close>-th batch, and
  returns the pair of the accumulated loss (the losses added in order, in float32) and of
  the number of correct predictions, each divided by the number of processed samples (a
  Python float).
\<close>

theorem train_epoch_result:
  assumes "dataloader \<noteq> []" and "report_freq \<noteq> 0"
    and "batches = take (epoch_batches epoch_size dataloader) dataloader"
    and "\<forall>batch\<in>set batches. fst batch \<noteq> []"
    and "(if optimizer then Inr (world m) else adam fw (world m) lr) = Inr w1"
    and "train_mode fw w1 = Inr w0"
    and "gradient_steps fw w0 batches = Inr (steps, w')"
    and "list_all2 fits steps batches"
  shows "train_epoch fw ar dataloader lr optimizer epoch_size report_freq m =
         Inr ((to_double ar (accumulated fw ar 0 steps / of_int (samples batches)),
               to_double ar (of_int (sum_list (map snd (tally steps batches)))
                 / of_int (samples batches))),
              \<lparr>world = w',
               calls = calls m
                 @ concat (replicate (length batches)
                     [ZeroGrad, Forward, Loss, Backward, OptStep]),
               printed = printed m @ reports ar report_freq (tally steps batches)\<rparr>)"
proof -
  let ?k = "epoch_batches epoch_size dataloader"
  let ?st = "\<lparr>world = w0, calls = calls m, printed = printed m,
       total_loss = PyInt 0, acc = PyInt 0, count_samples = 0, iter = 0\<rparr>"
  have k: "0 < ?k" "?k \<le> length dataloader"
    "\<forall>j. 0 < j \<and> j < ?k \<longrightarrow> \<not> stop_early epoch_size (samples (take j dataloader))"
    "?k < length dataloader \<longrightarrow> stop_early epoch_size (samples (take ?k dataloader))"
    using epoch_batches_stop[OF assms(1), of epoch_size] by blast+
  have ne: "batches \<noteq> []" using k(1) assms(1,3) by (cases dataloader) auto
  have len: "length batches = ?k" using k(2) assms(3) by simp
  have inner: "\<forall>j. 0 < j \<and> j < length batches
     \<longrightarrow> \<not> stop_early epoch_size (count_samples ?st + samples (take j batches))"
    using k(3) len assms(3) by (simp add: min_def)
  have last: "drop ?k dataloader = []
     \<or> stop_early epoch_size (count_samples ?st + samples batches)"
    using k(4) assms(3) by (cases "?k < length dataloader") simp_all
  have g: "gradient_steps fw (world ?st) batches = Inr (steps, w')" using assms(7) by simp
  have c0: "0 \<le> count_samples ?st" by simp
  have "train_loop fw ar report_freq epoch_size (batches @ drop ?k dataloader) ?st
         = Inr (looped fw ar report_freq ?st steps batches w')"
    using train_loop_ok[OF assms(2) ne g assms(8,4) c0 inner last] .
  then have loop: "train_loop fw ar report_freq epoch_size dataloader ?st
         = Inr (looped fw ar report_freq ?st steps batches w')"
    using assms(3) by simp
  obtain batch rest where br: "batches = batch # rest" using ne by (cases batches) auto
  have "0 < int (length (fst batch))" using assms(4) br by simp
  then have pos: "0 < samples batches"
    using samples_nonneg[of rest] unfolding br samples_Cons by linarith
  have ls: "length steps = length batches" using gradient_steps_length[OF assms(7)] .
  have su: "(if optimizer then Inr (world m) else lift (adam fw (world m) lr)) = Inr w1"
    using assms(5) by (cases optimizer) (simp_all add: lift_def)
  show ?thesis
    using su assms(6) loop pos ls
    by (simp add: train_epoch_def and_then_Inr lift_def looped_def py_item_def py_div_def
        py_val_def report_lines_0 step_calls_def)
qed

theorem train_epoch_result_witness:
  "train_epoch first_class no_rounding three_batches (1 / 100) True (Some 3) 1 start0 =
     Inr ((1 / 2, 3 / 4),
          \<lparr>world = 2,
           calls = [ZeroGrad, Forward, Loss, Backward, OptStep,
                    ZeroGrad, Forward, Loss, Backward, OptStep],
           printed = [AccLine 2 (1 / 2), AccLine 4 (3 / 4)]\<rparr>)"
proof -
  let ?batches = "[([0, 1], [[1, 0], [0, 2]]), ([0, 0], [[3, 0], [1, 1]])]"
  let ?steps = "[([[1, 0], [1, 0]], 1), ([[1, 0], [1, 0]], 1)]"
  have ne: "three_batches \<noteq> []" by (simp add: three_batches_def)
  have rf: "(1::int) \<noteq> 0" by simp
  have b: "?batches = take (epoch_batches (Some 3) three_batches) three_batches"
    by (simp add: epoch_batches_def three_batches_def samples_def upt_conv_Cons)
  have nb: "\<forall>batch\<in>set ?batches. fst batch \<noteq> []" by simp
  have su: "(if True then Inr (world start0)
             else adam first_class (world start0) (1 / 100)) = Inr 0"
    by (simp add: start0_def)
  have tm: "train_mode first_class 0 = Inr 0" by (simp add: first_class_def)
  have gs: "gradient_steps first_class 0 ?batches = Inr (?steps, 2)"
    by (simp add: gradient_step_def first_class_def)
  have fit: "list_all2 fits ?steps ?batches" by (simp add: fits_def)
  have t: "tally ?steps ?batches = [(2, 1), (2, 2)]"
    by (simp add: tally_def correct_def)
  have s: "samples ?batches = 4" by (simp add: samples_def)
  have l: "accumulated first_class no_rounding 0 ?steps = 2"
    by (simp add: accumulated_def first_class_def no_rounding_def)
  have p: "reports no_rounding 1 [(2, 1), (2, 2)] = [AccLine 2 (1 / 2), AccLine 4 (3 / 4)]"
    by (simp add: reports_def no_rounding_def upt_conv_Cons)
  show ?thesis
    using train_epoch_result[OF ne rf b nb su tm gs fit, of no_rounding]
    unfolding t s l p by (simp add: no_rounding_def start0_def)
qed

text \<open>
  The claim as first stated, for every data loader and every given \<open>epoch_size\<close>, fails:
  on a data loader without batches \<open>total_loss\<close> is still the integer 0 and
  \<open>total_loss.item()\<close> raises; and with \<open>epoch_size = 0\<close> the test \<open>epoch_size and ...\<close> is
  false, so both batches are processed although one sample already exceeds 0.
\<close>

theorem train_epoch_result_counterexample:
  "train_epoch first_class no_rounding [] (1 / 100) True None 200 start0 = Inl AttributeError
   \<and> train_epoch first_class no_rounding [([0], [[1]]), ([0], [[1]])] (1 / 100) True (Some 0)
        200 start0 =
       Inr ((1, 1),
            \<lparr>world = 2,
             calls = [ZeroGrad, Forward, Loss, Backward, OptStep,
                      ZeroGrad, Forward, Loss, Backward, OptStep],
             printed = []\<rparr>)"
  by (simp add: train_epoch_def train_step_def call_zero_grad_def call_forward_def
      call_loss_def call_backward_def call_opt_step_def lift_def and_then_def first_class_def
      start0_def py_item_def py_div_def py_mod_def py_add_def py_add32_def argmax_rows_def
      tensor_eq_def count_true_def stop_early_def no_rounding_def Let_def)

text \<open>
  The accumulated loss is the one of the float32 additions: after a loss of \<open>2^24\<close> a loss
  of 1 is lost, and the mean loss of the two samples is \<open>2^23\<close>.
\<close>

lemma train_epoch_rounds:
  "train_epoch big_loss near_2_24 [([0], [[1]]), ([1], [[1]])] (1 / 100) True None 200 start0 =
       Inr ((8388608, 1 / 2),
            \<lparr>world = 2,
             calls = [ZeroGrad, Forward, Loss, Backward, OptStep,
                      ZeroGrad, Forward, Loss, Backward, OptStep],
             printed = []\<rparr>)"
  by (simp add: train_epoch_def train_step_def call_zero_grad_def call_forward_def
      call_loss_def call_backward_def call_opt_step_def lift_def and_then_def first_class_def
      big_loss_def near_2_24_def
      start0_def py_item_def py_div_def py_mod_def py_add_def py_add32_def argmax_rows_def
      tensor_eq_def count_true_def stop_early_def Let_def)

section \<open>Properties of the evaluation loop\<close>

lemma eval_step_frame:
  assumes "keeps fw params"
    and "eval_step fw ar batch (m, acc_sum, i) = Inr (m', acc_sum', i')"
  shows "params (world m') = params (world m) \<and> calls m' = calls m @ [Forward]
     \<and> printed m' = printed m \<and> i' = i + 1
     \<and> (\<exists>a. batch_accuracies fw ar (world m) (batch # test_iter)
               = a # batch_accuracies fw ar (world m') test_iter
            \<and> acc_sum' = float_py_add ar acc_sum a)"
proof -
  obtain labels heads texts u where b: "batch = ((labels, heads, texts), u)"
    by (metis surj_pair)
  let ?x = "(transpose texts, map (\<lambda>l. l - 1) labels)"
  obtain loss out w' where f: "forward fw (world m) ?x = Inr ((loss, out), w')"
    using assms(2) unfolding b
    by (cases "forward fw (world m) ?x")
       (auto simp: eval_step_def call_forward_def lift_def and_then_def Let_def)
  have p: "params w' = params (world m)" using assms(1) f unfolding keeps_def by blast
  show ?thesis
    using assms(2) f p unfolding b
    by (auto simp: eval_step_def call_forward_def lift_def and_then_def Let_def
        batch_accuracy_def split: sum.splits prod.splits)
qed

text \<open>
  C5: the evaluation loop takes no gradient step. For every batch it processes it calls
  the model once (a forward pass) and adds the accuracy of the batch to \<open>acc\<close>; it makes
  no other call into the framework (no zeroing of gradients, no backward pass, no
  optimizer step) and prints nothing. So when the loop completes, after
  \<open>min(len(test_iter), iterations - i + 1)\<close> batches (at least one, if there is one), every
  observation of the state of the framework that forward passes keep, such as the value of
  every model parameter, is what it was before the loop.
\<close>

theorem evaluation_loop_frame:
  assumes "keeps fw params"
    and "eval_loop fw ar iterations test_iter (m, acc_sum, i) = Inr (m', acc_sum', i')"
  shows "params (world m') = params (world m)
     \<and> calls m' = calls m @ replicate (min (length test_iter) (nat (iterations - i) + 1)) Forward
     \<and> printed m' = printed m
     \<and> i' = i + int (min (length test_iter) (nat (iterations - i) + 1))
     \<and> acc_sum' = foldl (float_py_add ar) acc_sum
          (take (min (length test_iter) (nat (iterations - i) + 1))
             (batch_accuracies fw ar (world m) test_iter))"
  using assms(2)
proof (induction test_iter arbitrary: m acc_sum i)
  case Nil
  then show ?case by simp
next
  case (Cons batch test_iter)
  obtain m1 a1 i1 where s: "eval_step fw ar batch (m, acc_sum, i) = Inr (m1, a1, i1)"
    using Cons.prems by (cases "eval_step fw ar batch (m, acc_sum, i)") (auto simp: and_then_def)
  obtain a where f: "params (world m1) = params (world m)" "calls m1 = calls m @ [Forward]"
    "printed m1 = printed m" "i1 = i + 1"
    "batch_accuracies fw ar (world m) (batch # test_iter)
       = a # batch_accuracies fw ar (world m1) test_iter"
    "a1 = float_py_add ar acc_sum a"
    using eval_step_frame[OF assms(1) s, of test_iter] by auto
  show ?case
  proof (cases "i1 > iterations")
    case True
    then have "m' = m1" "i' = i1" "acc_sum' = a1"
      using Cons.prems s by (simp_all add: and_then_def)
    moreover have "min (length (batch # test_iter)) (nat (iterations - i) + 1) = 1"
      using True f(4) by simp
    ultimately show ?thesis using f by simp
  next
    case False
    then have "eval_loop fw ar iterations test_iter (m1, a1, i1) = Inr (m', acc_sum', i')"
      using Cons.prems s by (simp add: and_then_def)
    from Cons.IH[OF this]
    have r: "params (world m') = params (world m1)"
      "calls m' = calls m1 @ replicate (min (length test_iter) (nat (iterations - i1) + 1)) Forward"
      "printed m' = printed m1"
      "i' = i1 + int (min (length test_iter) (nat (iterations - i1) + 1))"
      "acc_sum' = foldl (float_py_add ar) a1
          (take (min (length test_iter) (nat (iterations - i1) + 1))
             (batch_accuracies fw ar (world m1) test_iter))"
      by simp_all
    have k: "min (length (batch # test_iter)) (nat (iterations - i) + 1)
           = Suc (min (length test_iter) (nat (iterations - i1) + 1))"
      using False f(4) by (simp add: min_def nat_diff_distrib) linarith?
    show ?thesis using r f unfolding k by (simp add: replicate_app_Cons_same)
  qed
qed

theorem evaluation_loop_frame_witness:
  "\<exists>m'. eval_loop second_class no_rounding 100 two_test_batches (start0, PyInt 0, 0)
           = Inr (m', Tensor (Num (3 / 2)), 2)
      \<and> world m' = world start0 \<and> calls m' = [Forward, Forward]"
proof -
  have k: "keeps second_class (\<lambda>w. w)"
    by (auto simp: keeps_def second_class_def)
  obtain m' a' i' where r:
    "eval_loop second_class no_rounding 100 two_test_batches (start0, PyInt 0, 0) = Inr (m', a', i')"
    by (simp add: two_test_batches_def eval_step_def call_forward_def lift_def and_then_def
        second_class_def argmax_rows_def tensor_eq_def Let_def)
  have f: "world m' = world start0"
    "calls m' = calls start0 @ replicate (min (length two_test_batches) (nat (100 - 0) + 1)) Forward"
    "i' = 0 + int (min (length two_test_batches) (nat (100 - 0) + 1))"
    "a' = foldl (float_py_add no_rounding) (PyInt 0)
          (take (min (length two_test_batches) (nat (100 - 0) + 1))
             (batch_accuracies second_class no_rounding (world start0) two_test_batches))"
    using evaluation_loop_frame[OF k r] by simp_all
  have "a' = Tensor (Num (3 / 2))"
    unfolding f(4)
    by (simp add: two_test_batches_def second_class_def batch_accuracy_def argmax_rows_def
        tensor_eq_def float_mean_def float_py_add_def float_add_def count_true_def
        no_rounding_def)
  moreover have "i' = 2" "calls m' = [Forward, Forward]"
    using f(2,3) by (simp_all add: two_test_batches_def start0_def numeral_2_eq_2)
  ultimately show ?thesis using r f(1) by simp
qed

section \<open>Properties of the guard of the generative training loop\<close>

lemma get_batch_exact:
  "length s = nchars \<Longrightarrow> get_batch stoi s nchars = Inr ([], [])"
  by (simp add: get_batch_def torch_zeros2_def)

text \<open>A run raises where its first part raises, or where the rest raises after it.\<close>

lemma and_then_eq_Inl:
  "and_then r f = Inl e \<longleftrightarrow> r = Inl e \<or> (\<exists>v. r = Inr v \<and> f v = Inl e)"
  by (cases r) (simp_all add: and_then_def)

lemma lift_no_alloc: "lift r \<noteq> Inl NegativeDimension"
  by (cases r) (simp_all add: lift_def)

lemma call_forward_no_alloc: "call_forward fw m x \<noteq> Inl NegativeDimension"
  by (auto simp: call_forward_def and_then_eq_Inl lift_no_alloc)

lemma call_zero_grad_no_alloc: "call_zero_grad fw m \<noteq> Inl NegativeDimension"
  by (auto simp: call_zero_grad_def and_then_eq_Inl lift_no_alloc)

lemma call_loss_no_alloc: "call_loss fw m out y \<noteq> Inl NegativeDimension"
  by (auto simp: call_loss_def and_then_eq_Inl lift_no_alloc)

lemma call_backward_no_alloc: "call_backward fw m loss \<noteq> Inl NegativeDimension"
  by (auto simp: call_backward_def and_then_eq_Inl lift_no_alloc)

lemma call_opt_step_no_alloc: "call_opt_step fw m \<noteq> Inl NegativeDimension"
  by (auto simp: call_opt_step_def and_then_eq_Inl lift_no_alloc)

lemmas calls_no_alloc =
  call_zero_grad_no_alloc call_forward_no_alloc call_loss_no_alloc call_backward_no_alloc
  call_opt_step_no_alloc

lemma generate_loop_no_alloc:
  "generate_loop fw itos n chars out s m \<noteq> Inl NegativeDimension"
proof (induction n arbitrary: chars out s m)
  case 0
  show ?case by simp
next
  case (Suc n)
  show ?case
    by (auto simp: and_then_eq_Inl py_index0_def py_last_def argmax_def py_index_def
        call_forward_no_alloc Suc.IH split: list.splits if_splits)
qed

lemma generate_no_alloc: "generate fw stoi itos n start m \<noteq> Inl NegativeDimension"
  by (auto simp: generate_def Let_def and_then_eq_Inl call_forward_no_alloc
      generate_loop_no_alloc)

lemma sample_text_no_alloc: "sample_text fw stoi itos loss m \<noteq> Inl NegativeDimension"
  by (auto simp: sample_text_def Let_def and_then_eq_Inl generate_no_alloc)

lemma generative_loop_skip:
  "length x < nchars + 10
   \<Longrightarrow> generative_loop fw stoi itos nchars ((i, x) # examples) st
       = generative_loop fw stoi itos nchars examples st"
  by (cases st) simp

lemma generative_loop_no_alloc:
  "generative_loop fw stoi itos nchars examples st \<noteq> Inl NegativeDimension"
proof (induction examples arbitrary: st)
  case Nil
  show ?case by simp
next
  case (Cons ex examples)
  obtain i x where ex: "ex = (i, x)" by (cases ex)
  obtain m k where st: "st = (m, k)" by (cases st)
  show ?case
  proof (cases "int (length x) - int nchars < 10")
    case True
    then show ?thesis unfolding ex st using Cons.IH by simp
  next
    case False
    then have "nchars \<le> length x" by simp
    then obtain ins outs where g: "get_batch stoi x nchars = Inr (ins, outs)"
      using get_batch_rows[of nchars x stoi] by blast
    show ?thesis
    proof (cases "k - 1 = 0")
      case True
      then show ?thesis unfolding ex st using False by simp
    next
      case k: False
      have "and_then (get_batch stoi x nchars) (\<lambda>(text_in, text_out).
        and_then (call_zero_grad fw m) (\<lambda>m.
        and_then (call_forward fw m (text_in, None)) (\<lambda>((out, s), m).
        and_then (call_loss fw m out text_out) (\<lambda>(loss, m).
        and_then (call_backward fw m loss) (\<lambda>m.
        and_then (call_opt_step fw m) (\<lambda>m.
        and_then (if i mod 1000 = 0 then sample_text fw stoi itos loss m else Inr m) (\<lambda>m.
          generative_loop fw stoi itos nchars examples (m, k - 1)))))))) \<noteq> Inl NegativeDimension"
        unfolding g
        by (auto simp: and_then_eq_Inl calls_no_alloc sample_text_no_alloc Cons.IH
            split: if_splits)
      then show ?thesis unfolding ex st using False k by simp
    qed
  qed
qed

text \<open>
  C9 (as amended): \<open>get_batch(s, nchars)\<close> fails for every sequence with
  \<open>len(s) < nchars\<close>, where it asks for a tensor with a negative number of rows; for
  \<open>len(s) = nchars\<close> it returns two tensors without rows. The training loop of the
  generative network skips every example whose text is shorter than \<open>nchars + 10\<close>
  (the iteration changes nothing), and on every other example \<open>get_batch\<close> returns, with
  at least 10 rows: the loop never ends with the error of the failing branch.
\<close>

theorem get_batch_guard:
  "(length s < nchars \<longrightarrow> get_batch stoi s nchars = Inl NegativeDimension)
   \<and> (length s = nchars \<longrightarrow> get_batch stoi s nchars = Inr ([], []))
   \<and> (length x < nchars + 10 \<longrightarrow>
        generative_loop fw stoi' itos nchars ((i, x) # examples) st
          = generative_loop fw stoi' itos nchars examples st)
   \<and> (nchars + 10 \<le> length x \<longrightarrow>
        (\<exists>ins outs. get_batch stoi' x nchars = Inr (ins, outs) \<and> 10 \<le> length ins))
   \<and> generative_loop fw stoi' itos nchars examples st \<noteq> Inl NegativeDimension"
proof -
  have "\<exists>ins outs. get_batch stoi' x nchars = Inr (ins, outs) \<and> 10 \<le> length ins"
    if "nchars + 10 \<le> length x"
  proof -
    have "nchars \<le> length x" using that by simp
    then obtain ins outs where "get_batch stoi' x nchars = Inr (ins, outs)"
      "length ins = length x - nchars"
      using get_batch_rows[of nchars x stoi'] by blast
    then show ?thesis using that by auto
  qed
  then show ?thesis
    using get_batch_short[of s nchars stoi] get_batch_exact[of s nchars stoi]
      generative_loop_skip[of x nchars fw stoi' itos i examples st]
      generative_loop_no_alloc[of fw stoi' itos nchars examples st]
    by blast
qed

theorem get_batch_guard_witness:
  "get_batch unk_e [''a''] 2 = Inl NegativeDimension
   \<and> get_batch unk_e [''a'', ''e''] 2 = Inr ([], [])
   \<and> generative_loop two_logits unk_e [''<unk>'', ''e''] 2 [(0, [''a'', ''e'', ''e''])]
        (fresh, 10000) = Inr (fresh, 10000)
   \<and> (\<exists>ins outs. get_batch unk_e (replicate 12 ''e'') 2 = Inr (ins, outs) \<and> 10 \<le> length ins)
   \<and> generative_loop two_logits unk_e [''<unk>'', ''e''] 2 [(0, replicate 12 ''e'')]
        (fresh, 10000) \<noteq> Inl NegativeDimension"
proof -
  have a: "get_batch unk_e [''a''] 2 = Inl NegativeDimension"
    using get_batch_guard[of "[''a'']" 2 unk_e "[]" two_logits unk_e "[]" 0 "[]"
        "(fresh, 10000)"]
    by simp
  have b: "get_batch unk_e [''a'', ''e''] 2 = Inr ([], [])"
    using get_batch_guard[of "[''a'', ''e'']" 2 unk_e "[]" two_logits unk_e "[]" 0 "[]"
        "(fresh, 10000)"]
    by simp
  have c: "generative_loop two_logits unk_e [''<unk>'', ''e''] 2 [(0, [''a'', ''e'', ''e''])]
        (fresh, 10000) = Inr (fresh, 10000)"
    using get_batch_guard[of "[''a'']" 2 unk_e "[''a'', ''e'', ''e'']" two_logits unk_e
        "[''<unk>'', ''e'']" 0 "[]" "(fresh, 10000)"]
    by simp
  have d: "\<exists>ins outs. get_batch unk_e (replicate 12 ''e'') 2 = Inr (ins, outs)
     \<and> 10 \<le> length ins"
    using get_batch_guard[of "[''a'']" 2 unk_e "replicate 12 ''e''" two_logits unk_e
        "[''<unk>'', ''e'']" 0 "[(0, replicate 12 ''e'')]" "(fresh, 10000)"]
    by simp
  have e: "generative_loop two_logits unk_e [''<unk>'', ''e''] 2 [(0, replicate 12 ''e'')]
        (fresh, 10000) \<noteq> Inl NegativeDimension"
    using get_batch_guard[of "[''a'']" 2 unk_e "replicate 12 ''e''" two_logits unk_e
        "[''<unk>'', ''e'']" 0 "[(0, replicate 12 ''e'')]" "(fresh, 10000)"]
    by simp
  show ?thesis using a b c d e by blast
qed

text \<open>
  The claim as first stated, that \<open>get_batch\<close> fails for every \<open>len(s) \<le> nchars\<close>, fails
  for \<open>len(s) = nchars\<close>: \<open>torch.zeros(0, nchars)\<close> is a tensor without rows, and the loop
  over \<open>range(0)\<close> indexes nothing.
\<close>

theorem get_batch_guard_counterexample:
  "get_batch unk_e [''a'', ''e''] 2 = Inr ([], [])"
  by (simp add: get_batch_def torch_zeros2_def)

section \<open>Propagation of exceptions\<close>






























end
